theory Spec2Isabelle
  imports Main "HOL-Library.Word" "HOL-Library.List_Lexorder"
begin

unbundle bit_operations_syntax

section \<open>JavaScript values\<close>

text \<open>
  The class \<open>SafeFile\<close> works on plain data: what \<open>JSON.parse\<close> returns, or what the
  game keeps in memory as its save state. A value is \<open>undefined\<close>, \<open>null\<close>, a boolean, a
  number, a string, an array or an object. Strings are sequences of UTF-16 code units.
  An object is the list of its own enumerable properties in enumeration order; JavaScript
  keeps property names unique, and the operations below keep a list with unique names
  unique. Numbers are integers, as timestamps, counters and version numbers are:
  fractions, \<open>NaN\<close> and the infinities are not values of the model, and arithmetic on
  numbers is exact. Functions, symbols, accessors and cyclic structures are not values of
  the model either.
\<close>

type_synonym jstring = "16 word list"
type_synonym byte = "8 word"
type_synonym u32 = "32 word"

datatype json =
    JUndefined
  | JNull
  | JBool bool
  | JNum int
  | JStr jstring
  | JArr "json list"
  | JObj "(jstring \<times> json) list"

text \<open>
  The exceptions the code can meet on such data. The text of \<open>error.message\<close> is the
  engine's own for a runtime error, so a message is identified with the error that
  carries it. \<open>StructureError r\<close> is the \<open>Error\<close> that \<open>secureExport\<close> throws itself,
  with the validator's reason \<open>r\<close> appended to its prefix.
\<close>

datatype vreason =
    SaveFormatError       \<comment> \<open>reason literal of line 66: the save has the wrong format\<close>
  | UnlockedFormatError   \<comment> \<open>line 73: the unlocked data have the wrong format\<close>
  | HistoryFormatError    \<comment> \<open>line 74: the history record has the wrong format\<close>
  | MissionsFormatError   \<comment> \<open>line 75: the mission data have the wrong format\<close>
  | ParseError            \<comment> \<open>line 79: the data could not be parsed\<close>

datatype js_error =
    ReadOfNullish         \<comment> \<open>TypeError: property read or destructuring of undefined or null\<close>
  | NullishToObject       \<comment> \<open>TypeError: \<open>Object.keys\<close> of undefined or null\<close>
  | NotCallable           \<comment> \<open>TypeError: the member called is not a function\<close>
  | NoPrimitive           \<comment> \<open>TypeError: an object cannot be converted to a primitive value\<close>
  | InvalidCharacter      \<comment> \<open>DOMException of \<open>btoa\<close>: a code unit above 255\<close>
  | EmptyKeyData          \<comment> \<open>DOMException (DataError) of \<open>importKey\<close>: an HMAC key of length 0\<close>
  | StructureError vreason

definition bindE :: "'e + 'a \<Rightarrow> ('a \<Rightarrow> 'e + 'b) \<Rightarrow> 'e + 'b" where
  "bindE m f = (case m of Inl e \<Rightarrow> Inl e | Inr x \<Rightarrow> f x)"

subsection \<open>Strings\<close>

definition ascii :: "string \<Rightarrow> jstring" where
  "ascii s = map (\<lambda>c. of_nat (of_char c)) s"

definition digit_unit :: "nat \<Rightarrow> 16 word" where
  "digit_unit d = (if d < 10 then 48 + of_nat d else 87 + of_nat d)"

fun dec_nat :: "nat \<Rightarrow> jstring" where
  "dec_nat n = (if n < 10 then [digit_unit n] else dec_nat (n div 10) @ [digit_unit (n mod 10)])"

declare dec_nat.simps [simp del]

definition dec_int :: "int \<Rightarrow> jstring" where
  "dec_int i = (if i < 0 then ascii ''-'' @ dec_nat (nat (- i)) else dec_nat (nat i))"

definition hex4 :: "nat \<Rightarrow> jstring" where
  "hex4 n = [digit_unit (n div 4096 mod 16), digit_unit (n div 256 mod 16),
             digit_unit (n div 16 mod 16), digit_unit (n mod 16)]"

fun join_with :: "jstring \<Rightarrow> jstring list \<Rightarrow> jstring" where
  "join_with sep [] = []"
| "join_with sep [s] = s"
| "join_with sep (s # t # ts) = s @ sep @ join_with sep (t # ts)"

definition high_surrogate :: "16 word \<Rightarrow> bool" where
  "high_surrogate c = (0xD800 \<le> c \<and> c < 0xDC00)"

definition low_surrogate :: "16 word \<Rightarrow> bool" where
  "low_surrogate c = (0xDC00 \<le> c \<and> c < 0xE000)"

subsection \<open>Truthiness, \<open>typeof\<close>, properties\<close>

fun truthy :: "json \<Rightarrow> bool" where
  "truthy JUndefined = False"
| "truthy JNull = False"
| "truthy (JBool b) = b"
| "truthy (JNum n) = (n \<noteq> 0)"
| "truthy (JStr s) = (s \<noteq> [])"
| "truthy (JArr xs) = True"
| "truthy (JObj kvs) = True"

text \<open>\<open>a || b\<close>\<close>

definition js_or :: "json \<Rightarrow> json \<Rightarrow> json" where
  "js_or a b = (if truthy a then a else b)"

datatype jstype = TUndefined | TObject | TBoolean | TNumber | TString

fun typeof :: "json \<Rightarrow> jstype" where
  "typeof JUndefined = TUndefined"
| "typeof JNull = TObject"
| "typeof (JBool b) = TBoolean"
| "typeof (JNum n) = TNumber"
| "typeof (JStr s) = TString"
| "typeof (JArr xs) = TObject"
| "typeof (JObj kvs) = TObject"

fun isArray :: "json \<Rightarrow> bool" where
  "isArray (JArr xs) = True"
| "isArray _ = False"

definition index_keys :: "nat \<Rightarrow> jstring list" where
  "index_keys n = map dec_nat [0..<n]"

text \<open>
  The own enumerable properties of a value, in enumeration order: the fields of an
  object, the elements of an array under their indices, the code units of a string under
  theirs. Numbers and booleans have none.
\<close>

fun own_props :: "json \<Rightarrow> (jstring \<times> json) list" where
  "own_props (JObj kvs) = kvs"
| "own_props (JArr xs) = zip (index_keys (length xs)) xs"
| "own_props (JStr s) = zip (index_keys (length s)) (map (\<lambda>c. JStr [c]) s)"
| "own_props _ = []"

text \<open>
  \<open>v.p\<close> and \<open>v[p]\<close>: a TypeError on \<open>undefined\<close> and \<open>null\<close>; otherwise the own
  property, the \<open>length\<close> of an array or a string, and \<open>undefined\<close> for any other name.
  The methods that the prototypes provide are functions, hence not values of the model;
  the code reads none of them as data.
\<close>

fun get_prop :: "json \<Rightarrow> jstring \<Rightarrow> js_error + json" where
  "get_prop JUndefined p = Inl ReadOfNullish"
| "get_prop JNull p = Inl ReadOfNullish"
| "get_prop v p =
     (case map_of (own_props v) p of
        Some x \<Rightarrow> Inr x
      | None \<Rightarrow>
          if p = ascii ''length'' then
            (case v of JArr xs \<Rightarrow> Inr (JNum (int (length xs)))
                     | JStr s \<Rightarrow> Inr (JNum (int (length s)))
                     | _ \<Rightarrow> Inr JUndefined)
          else Inr JUndefined)"

fun objectKeys :: "json \<Rightarrow> js_error + jstring list" where
  "objectKeys JUndefined = Inl NullishToObject"
| "objectKeys JNull = Inl NullishToObject"
| "objectKeys v = Inr (map fst (own_props v))"

text \<open>
  An object literal with a spread and computed keys, \<open>{...src, [k]: v}\<close>: a property
  that exists keeps its place and takes the new value, a new one goes to the end.
  Spreading \<open>undefined\<close> or \<open>null\<close> copies nothing.
\<close>

fun put_prop :: "(jstring \<times> json) list \<Rightarrow> jstring \<Rightarrow> json \<Rightarrow> (jstring \<times> json) list" where
  "put_prop [] k v = [(k, v)]"
| "put_prop ((k', v') # kvs) k v =
     (if k' = k then (k, v) # kvs else (k', v') # put_prop kvs k v)"

text \<open>The rest element of an object destructuring pattern, \<open>{[k1]: a, ..., ...rest}\<close>.\<close>

definition rest_props :: "jstring list \<Rightarrow> json \<Rightarrow> json" where
  "rest_props ks v = JObj (filter (\<lambda>kv. fst kv \<notin> set ks) (own_props v))"

subsection \<open>\<open>ToString\<close>, \<open>sort\<close>, \<open>join\<close>\<close>

text \<open>
  \<open>ToString\<close>. An array is joined with commas, \<open>undefined\<close> and \<open>null\<close> elements
  giving the empty string. A plain object gives \<open>[object Object]\<close>, unless it has an own
  property \<open>toString\<close>: in the model that property is data, not a function, so neither
  it nor \<open>valueOf\<close> returns a primitive and the conversion throws.
\<close>

fun to_string :: "json \<Rightarrow> js_error + jstring"
  and elem_strings :: "json list \<Rightarrow> js_error + jstring list" where
  "to_string JUndefined = Inr (ascii ''undefined'')"
| "to_string JNull = Inr (ascii ''null'')"
| "to_string (JBool b) = Inr (if b then ascii ''true'' else ascii ''false'')"
| "to_string (JNum n) = Inr (dec_int n)"
| "to_string (JStr s) = Inr s"
| "to_string (JArr xs) =
     (case elem_strings xs of Inl e \<Rightarrow> Inl e | Inr ss \<Rightarrow> Inr (join_with (ascii '','') ss))"
| "to_string (JObj kvs) =
     (if ascii ''toString'' \<in> fst ` set kvs then Inl NoPrimitive
      else Inr (ascii ''[object Object]''))"
| "elem_strings [] = Inr []"
| "elem_strings (x # xs) =
     (case (if x = JUndefined \<or> x = JNull then Inr [] else to_string x) of
        Inl e \<Rightarrow> Inl e
      | Inr s \<Rightarrow> (case elem_strings xs of Inl e \<Rightarrow> Inl e | Inr ss \<Rightarrow> Inr (s # ss)))"

text \<open>\<open>xs.join(sep)\<close>\<close>

definition js_join :: "jstring \<Rightarrow> json list \<Rightarrow> js_error + jstring" where
  "js_join sep xs = bindE (elem_strings xs) (\<lambda>ss. Inr (join_with sep ss))"

fun to_strings :: "json list \<Rightarrow> js_error + jstring list" where
  "to_strings [] = Inr []"
| "to_strings (x # xs) =
     bindE (to_string x) (\<lambda>s. bindE (to_strings xs) (\<lambda>ss. Inr (s # ss)))"

text \<open>
  \<open>xs.sort()\<close> with the default comparison: \<open>undefined\<close> elements go last, the others
  are ordered by their \<open>ToString\<close>, compared code unit by code unit, and the sort is
  stable. With fewer than two elements to order no comparison takes place and no
  conversion can throw.
\<close>

definition js_sort :: "json list \<Rightarrow> js_error + json list" where
  "js_sort xs =
     (let ds = filter (\<lambda>x. x \<noteq> JUndefined) xs;
          us = filter (\<lambda>x. x = JUndefined) xs
      in if length ds < 2 then Inr (ds @ us)
         else bindE (to_strings ds)
                (\<lambda>ss. Inr (map snd (sort_key fst (zip ss ds)) @ us)))"

subsection \<open>\<open>JSON.stringify\<close>\<close>

text \<open>
  \<open>QuoteJSONString\<close>: the quotation mark and the backslash are escaped, control
  characters take their short escape or the four-digit hexadecimal escape, and so does
  a surrogate that is not part of a pair; everything else stands for itself. The code
  unit \<open>0x5C\<close> is the backslash, \<open>0x22\<close> the quotation mark.
\<close>

definition escape_unit :: "16 word \<Rightarrow> jstring" where
  "escape_unit c =
     (if c = 0x08 then [0x5C, 0x62]
      else if c = 0x09 then [0x5C, 0x74]
      else if c = 0x0A then [0x5C, 0x6E]
      else if c = 0x0C then [0x5C, 0x66]
      else if c = 0x0D then [0x5C, 0x72]
      else if c = 0x22 then [0x5C, 0x22]
      else if c = 0x5C then [0x5C, 0x5C]
      else if c < 0x20 \<or> high_surrogate c \<or> low_surrogate c
        then [0x5C, 0x75] @ hex4 (unat c)
      else [c])"

fun quote_units :: "jstring \<Rightarrow> jstring" where
  "quote_units [] = []"
| "quote_units [c] = escape_unit c"
| "quote_units (c # d # cs) =
     (if high_surrogate c \<and> low_surrogate d then c # d # quote_units cs
      else escape_unit c @ quote_units (d # cs))"

definition quoteJSON :: "jstring \<Rightarrow> jstring" where
  "quoteJSON s = [0x22] @ quote_units s @ [0x22]"

text \<open>
  \<open>JSON.stringify(value, replacer)\<close> without indentation; \<open>None\<close> is the result
  \<open>undefined\<close>. The first argument is the property list that an array replacer
  denotes, \<open>None\<close> when no replacer is given. The property list applies to every object
  of the value, at any depth: an object is written with the listed names it has, in the
  order of the list. Arrays are written in full; an element without a serialisation
  is written \<open>null\<close>, a property without one is left out. A property \<open>toJSON\<close> would
  be data in the model and is not called.
\<close>

fun serialize :: "jstring list option \<Rightarrow> json \<Rightarrow> jstring option"
  and serialize_elems :: "jstring list option \<Rightarrow> json list \<Rightarrow> jstring list"
  and serialize_members ::
    "jstring list option \<Rightarrow> (jstring \<times> json) list \<Rightarrow> (jstring \<times> jstring) list" where
  "serialize pl JUndefined = None"
| "serialize pl JNull = Some (ascii ''null'')"
| "serialize pl (JBool b) = Some (if b then ascii ''true'' else ascii ''false'')"
| "serialize pl (JNum n) = Some (dec_int n)"
| "serialize pl (JStr s) = Some (quoteJSON s)"
| "serialize pl (JArr xs) =
     Some (ascii ''['' @ join_with (ascii '','') (serialize_elems pl xs) @ ascii '']'')"
| "serialize pl (JObj kvs) =
     (let ms = serialize_members pl kvs;
          names = (case pl of None \<Rightarrow> map fst kvs | Some ks \<Rightarrow> ks);
          parts = List.map_filter
                    (\<lambda>k. map_option (\<lambda>s. quoteJSON k @ ascii '':'' @ s) (map_of ms k)) names
      in Some (ascii ''{'' @ join_with (ascii '','') parts @ ascii ''}''))"
| "serialize_elems pl [] = []"
| "serialize_elems pl (x # xs) =
     (case serialize pl x of None \<Rightarrow> ascii ''null'' | Some s \<Rightarrow> s) # serialize_elems pl xs"
| "serialize_members pl [] = []"
| "serialize_members pl ((k, v) # kvs) =
     (case serialize pl v of
        None \<Rightarrow> serialize_members pl kvs
      | Some s \<Rightarrow> (k, s) # serialize_members pl kvs)"

text \<open>
  The property list of an array replacer: its strings, each once, in order of first
  occurrence.
\<close>

fun property_list :: "jstring list \<Rightarrow> jstring list" where
  "property_list [] = []"
| "property_list (k # ks) = k # property_list (filter (\<lambda>x. x \<noteq> k) ks)"

text \<open>
  A string argument that is \<open>undefined\<close> reaches \<open>TextEncoder.encode\<close> as the empty
  string.
\<close>

definition stringify :: "json \<Rightarrow> jstring" where
  "stringify v = (case serialize None v of None \<Rightarrow> [] | Some s \<Rightarrow> s)"

definition stringify_keys :: "json \<Rightarrow> jstring list \<Rightarrow> jstring" where
  "stringify_keys v ks =
     (case serialize (Some (property_list ks)) v of None \<Rightarrow> [] | Some s \<Rightarrow> s)"

subsection \<open>\<open>TextEncoder\<close>, \<open>String.fromCharCode\<close>, \<open>btoa\<close>\<close>

definition utf8_point :: "nat \<Rightarrow> byte list" where
  "utf8_point p =
     (if p < 0x80 then [of_nat p]
      else if p < 0x800 then [of_nat (0xC0 + p div 64), of_nat (0x80 + p mod 64)]
      else if p < 0x10000 then
        [of_nat (0xE0 + p div 4096), of_nat (0x80 + p div 64 mod 64), of_nat (0x80 + p mod 64)]
      else
        [of_nat (0xF0 + p div 262144), of_nat (0x80 + p div 4096 mod 64),
         of_nat (0x80 + p div 64 mod 64), of_nat (0x80 + p mod 64)])"

text \<open>
  \<open>new TextEncoder().encode(s)\<close>: UTF-8, a surrogate pair as one code point, a surrogate
  without its partner as U+FFFD.
\<close>

fun encode :: "jstring \<Rightarrow> byte list" where
  "encode [] = []"
| "encode [c] =
     (if high_surrogate c \<or> low_surrogate c then utf8_point 0xFFFD else utf8_point (unat c))"
| "encode (c # d # cs) =
     (if high_surrogate c \<and> low_surrogate d
        then utf8_point (0x10000 + (unat c - 0xD800) * 1024 + (unat d - 0xDC00)) @ encode cs
      else if high_surrogate c \<or> low_surrogate c then utf8_point 0xFFFD @ encode (d # cs)
      else utf8_point (unat c) @ encode (d # cs))"

definition fromCharCode :: "byte list \<Rightarrow> jstring" where
  "fromCharCode bs = map ucast bs"

definition base64_alphabet :: jstring where
  "base64_alphabet =
     ascii ''ABCDEFGHIJKLMNOPQRSTUVWXYZabcdefghijklmnopqrstuvwxyz0123456789+/''"

definition base64_unit :: "nat \<Rightarrow> 16 word" where
  "base64_unit i = base64_alphabet ! (i mod 64)"

fun base64 :: "nat list \<Rightarrow> jstring" where
  "base64 [] = []"
| "base64 [a] =
     [base64_unit (a div 4), base64_unit (a mod 4 * 16), 0x3D, 0x3D]"
| "base64 [a, b] =
     [base64_unit (a div 4), base64_unit (a mod 4 * 16 + b div 16),
      base64_unit (b mod 16 * 4), 0x3D]"
| "base64 (a # b # c # rest) =
     [base64_unit (a div 4), base64_unit (a mod 4 * 16 + b div 16),
      base64_unit (b mod 16 * 4 + c div 64), base64_unit (c mod 64)] @ base64 rest"

text \<open>\<open>btoa(s)\<close>: base64 of a string of code units below 256, an exception otherwise.\<close>

definition btoa :: "jstring \<Rightarrow> js_error + jstring" where
  "btoa s =
     (if list_all (\<lambda>c. c < 256) s then Inr (base64 (map unat s)) else Inl InvalidCharacter)"

section \<open>The platform's cryptography\<close>

text \<open>
  \<open>crypto.subtle.digest('SHA-256', data)\<close> is the hash function SHA-256 of FIPS 180-4,
  and \<open>crypto.subtle.sign('HMAC', key, data)\<close> with a key imported for the hash SHA-256
  is HMAC of FIPS 198-1 over it. Both belong to the browser, not to the repository; they
  are defined here as the standards define them, on lists of bytes. \<open>sha256_K\<close> are
  the sixty-four round constants of section 4.2.2 of FIPS 180-4 and \<open>sha256_H0\<close> is the
  initial hash value of its section 5.3.3.
\<close>

definition rotr :: "nat \<Rightarrow> u32 \<Rightarrow> u32" where
  "rotr n x = (drop_bit n x) OR (push_bit (32 - n) x)"

definition Ch :: "u32 \<Rightarrow> u32 \<Rightarrow> u32 \<Rightarrow> u32" where
  "Ch x y z = (x AND y) XOR (NOT x AND z)"

definition Maj :: "u32 \<Rightarrow> u32 \<Rightarrow> u32 \<Rightarrow> u32" where
  "Maj x y z = (x AND y) XOR (x AND z) XOR (y AND z)"

definition Sigma0 :: "u32 \<Rightarrow> u32" where
  "Sigma0 x = rotr 2 x XOR rotr 13 x XOR rotr 22 x"

definition Sigma1 :: "u32 \<Rightarrow> u32" where
  "Sigma1 x = rotr 6 x XOR rotr 11 x XOR rotr 25 x"

definition sigma0 :: "u32 \<Rightarrow> u32" where
  "sigma0 x = rotr 7 x XOR rotr 18 x XOR drop_bit 3 x"

definition sigma1 :: "u32 \<Rightarrow> u32" where
  "sigma1 x = rotr 17 x XOR rotr 19 x XOR drop_bit 10 x"

definition sha256_K :: "u32 list" where
  "sha256_K =
   [0x428A2F98, 0x71374491, 0xB5C0FBCF, 0xE9B5DBA5, 0x3956C25B, 0x59F111F1, 0x923F82A4, 0xAB1C5ED5,
    0xD807AA98, 0x12835B01, 0x243185BE, 0x550C7DC3, 0x72BE5D74, 0x80DEB1FE, 0x9BDC06A7, 0xC19BF174,
    0xE49B69C1, 0xEFBE4786, 0x0FC19DC6, 0x240CA1CC, 0x2DE92C6F, 0x4A7484AA, 0x5CB0A9DC, 0x76F988DA,
    0x983E5152, 0xA831C66D, 0xB00327C8, 0xBF597FC7, 0xC6E00BF3, 0xD5A79147, 0x06CA6351, 0x14292967,
    0x27B70A85, 0x2E1B2138, 0x4D2C6DFC, 0x53380D13, 0x650A7354, 0x766A0ABB, 0x81C2C92E, 0x92722C85,
    0xA2BFE8A1, 0xA81A664B, 0xC24B8B70, 0xC76C51A3, 0xD192E819, 0xD6990624, 0xF40E3585, 0x106AA070,
    0x19A4C116, 0x1E376C08, 0x2748774C, 0x34B0BCB5, 0x391C0CB3, 0x4ED8AA4A, 0x5B9CCA4F, 0x682E6FF3,
    0x748F82EE, 0x78A5636F, 0x84C87814, 0x8CC70208, 0x90BEFFFA, 0xA4506CEB, 0xBEF9A3F7, 0xC67178F2]"

definition sha256_H0 :: "u32 list" where
  "sha256_H0 =
   [0x6A09E667, 0xBB67AE85, 0x3C6EF372, 0xA54FF53A, 0x510E527F, 0x9B05688C, 0x1F83D9AB, 0x5BE0CD19]"

text \<open>Big-endian words of a block, and the bytes of a word.\<close>

fun be32 :: "byte list \<Rightarrow> u32 list" where
  "be32 (a # b # c # d # rest) =
     (push_bit 24 (ucast a) OR push_bit 16 (ucast b) OR push_bit 8 (ucast c) OR ucast d) # be32 rest"
| "be32 _ = []"

definition bytes_of_u32 :: "u32 \<Rightarrow> byte list" where
  "bytes_of_u32 w = [ucast (drop_bit 24 w), ucast (drop_bit 16 w), ucast (drop_bit 8 w), ucast w]"

definition bytes_of_u64 :: "64 word \<Rightarrow> byte list" where
  "bytes_of_u64 w = map (\<lambda>i. ucast (drop_bit (56 - 8 * i) w)) [0..<8]"

text \<open>
  Padding: the bit 1, zero bits up to 56 bytes modulo 64, the length of the message in
  bits as a 64-bit number.
\<close>

definition sha256_pad :: "byte list \<Rightarrow> byte list" where
  "sha256_pad m =
     m @ [0x80] @ replicate ((119 - length m mod 64) mod 64) 0
       @ bytes_of_u64 (of_nat (8 * length m))"

text \<open>
  The message schedule: \<open>schedule n w\<close> is the next \<open>n\<close> words after the window \<open>w\<close> of
  the last sixteen.
\<close>

fun schedule :: "nat \<Rightarrow> u32 list \<Rightarrow> u32 list" where
  "schedule 0 w = []"
| "schedule (Suc n) w =
     (let x = sigma1 (w ! 14) + w ! 9 + sigma0 (w ! 1) + w ! 0
      in x # schedule n (tl w @ [x]))"

definition sha256_round :: "u32 list \<Rightarrow> u32 \<times> u32 \<Rightarrow> u32 list" where
  "sha256_round s kw =
     (case s of
        [a, b, c, d, e, f, g, h] \<Rightarrow>
          (let t1 = h + Sigma1 e + Ch e f g + fst kw + snd kw;
               t2 = Sigma0 a + Maj a b c
           in [t1 + t2, a, b, c, d + t1, e, f, g])
      | _ \<Rightarrow> s)"

definition sha256_block :: "u32 list \<Rightarrow> byte list \<Rightarrow> u32 list" where
  "sha256_block h blk =
     (let w = be32 blk;
          ws = w @ schedule 48 w
      in map2 (+) h (foldl sha256_round h (zip sha256_K ws)))"

fun chunks64 :: "byte list \<Rightarrow> byte list list" where
  "chunks64 [] = []"
| "chunks64 (x # xs) = take 64 (x # xs) # chunks64 (drop 64 (x # xs))"

definition sha256 :: "byte list \<Rightarrow> byte list" where
  "sha256 m =
     concat (map bytes_of_u32 (foldl sha256_block sha256_H0 (chunks64 (sha256_pad m))))"

definition hmac_sha256 :: "byte list \<Rightarrow> byte list \<Rightarrow> byte list" where
  "hmac_sha256 key msg =
     (let k0 = (if 64 < length key then sha256 key else key);
          k = k0 @ replicate (64 - length k0) 0
      in sha256 (map (\<lambda>b. b XOR 0x5C) k @ sha256 (map (\<lambda>b. b XOR 0x36) k @ msg)))"

section \<open>Comparing a value with a number\<close>

text \<open>
  \<open>v < n\<close> and \<open>v > n\<close> for a number \<open>n\<close> convert \<open>v\<close> with \<open>ToNumber\<close>. The result
  of the conversion need not be an integer: it is \<open>NaN\<close>, an infinity, or a decimal
  \<open>m * 10 ^ e\<close>. A comparison with \<open>NaN\<close> is false. The conversion of a string follows
  the grammar of numeric string literals; its value is taken exactly, without the
  rounding to a double.
\<close>

datatype number = NaN | PosInf | NegInf | Dec int int

definition is_space :: "16 word \<Rightarrow> bool" where
  "is_space c =
     (c \<in> set [0x09, 0x0A, 0x0B, 0x0C, 0x0D, 0x20, 0xA0, 0x1680, 0x2028, 0x2029, 0x202F,
               0x205F, 0x3000, 0xFEFF]
      \<or> (0x2000 \<le> c \<and> c \<le> 0x200A))"

definition trim :: "jstring \<Rightarrow> jstring" where
  "trim s = rev (dropWhile is_space (rev (dropWhile is_space s)))"

definition digit_val :: "nat \<Rightarrow> 16 word \<Rightarrow> nat option" where
  "digit_val base c =
     (let u = unat c;
          d = (if 48 \<le> u \<and> u \<le> 57 then u - 48
               else if 97 \<le> u \<and> u \<le> 102 then u - 87
               else if 65 \<le> u \<and> u \<le> 70 then u - 55
               else base)
      in if d < base then Some d else None)"

definition is_digit :: "nat \<Rightarrow> 16 word \<Rightarrow> bool" where
  "is_digit base c = (digit_val base c \<noteq> None)"

definition digits_val :: "nat \<Rightarrow> jstring \<Rightarrow> nat" where
  "digits_val base ds =
     foldl (\<lambda>a c. a * base + (case digit_val base c of None \<Rightarrow> 0 | Some d \<Rightarrow> d)) 0 ds"

definition radix_literal :: "nat \<Rightarrow> jstring \<Rightarrow> number" where
  "radix_literal base ds =
     (if ds \<noteq> [] \<and> list_all (is_digit base) ds then Dec (int (digits_val base ds)) 0 else NaN)"

text \<open>The exponent part of a decimal literal, after the letter \<open>e\<close>.\<close>

definition exponent_part :: "jstring \<Rightarrow> int option" where
  "exponent_part r =
     (let neg = (case r of c # _ \<Rightarrow> c = 0x2D | [] \<Rightarrow> False);
          ds = (case r of c # cs \<Rightarrow> if c = 0x2D \<or> c = 0x2B then cs else r | [] \<Rightarrow> [])
      in if ds \<noteq> [] \<and> list_all (is_digit 10) ds
         then Some (if neg then - int (digits_val 10 ds) else int (digits_val 10 ds))
         else None)"

definition decimal_literal :: "bool \<Rightarrow> jstring \<Rightarrow> number" where
  "decimal_literal neg r =
     (if r = ascii ''Infinity'' then (if neg then NegInf else PosInf)
      else
        let ip = takeWhile (is_digit 10) r;
            r1 = dropWhile (is_digit 10) r;
            dot = (case r1 of c # _ \<Rightarrow> c = 0x2E | [] \<Rightarrow> False);
            fp = (if dot then takeWhile (is_digit 10) (tl r1) else []);
            r2 = (if dot then dropWhile (is_digit 10) (tl r1) else r1);
            m = int (digits_val 10 (ip @ fp));
            sm = (if neg then - m else m)
        in if ip = [] \<and> fp = [] then NaN
           else (case r2 of
                   [] \<Rightarrow> Dec sm (- int (length fp))
                 | c # r3 \<Rightarrow>
                     if c = 0x65 \<or> c = 0x45 then
                       (case exponent_part r3 of
                          None \<Rightarrow> NaN
                        | Some e \<Rightarrow> Dec sm (e - int (length fp)))
                     else NaN))"

definition signed_decimal :: "jstring \<Rightarrow> number" where
  "signed_decimal t =
     (case t of
        [] \<Rightarrow> NaN
      | c # r \<Rightarrow>
          if c = 0x2D then decimal_literal True r
          else if c = 0x2B then decimal_literal False r
          else decimal_literal False t)"

definition string_to_number :: "jstring \<Rightarrow> number" where
  "string_to_number s =
     (let t = trim s
      in if t = [] then Dec 0 0
         else (case t of
                 a # b # ds \<Rightarrow>
                   if a = 0x30 \<and> (b = 0x78 \<or> b = 0x58) then radix_literal 16 ds
                   else if a = 0x30 \<and> (b = 0x6F \<or> b = 0x4F) then radix_literal 8 ds
                   else if a = 0x30 \<and> (b = 0x62 \<or> b = 0x42) then radix_literal 2 ds
                   else signed_decimal t
               | _ \<Rightarrow> signed_decimal t))"

text \<open>
  \<open>ToNumber\<close>. An array or an object is first converted to a primitive; in the model
  \<open>valueOf\<close> never returns one, so the primitive is the string that \<open>ToString\<close> gives.
\<close>

fun to_number :: "json \<Rightarrow> js_error + number" where
  "to_number JUndefined = Inr NaN"
| "to_number JNull = Inr (Dec 0 0)"
| "to_number (JBool b) = Inr (Dec (if b then 1 else 0) 0)"
| "to_number (JNum n) = Inr (Dec n 0)"
| "to_number (JStr s) = Inr (string_to_number s)"
| "to_number v = bindE (to_string v) (\<lambda>s. Inr (string_to_number s))"

fun num_less :: "number \<Rightarrow> int \<Rightarrow> bool" where
  "num_less NaN b = False"
| "num_less PosInf b = False"
| "num_less NegInf b = True"
| "num_less (Dec m e) b = (if 0 \<le> e then m * 10 ^ nat e < b else m < b * 10 ^ nat (- e))"

fun num_greater :: "number \<Rightarrow> int \<Rightarrow> bool" where
  "num_greater NaN b = False"
| "num_greater PosInf b = True"
| "num_greater NegInf b = False"
| "num_greater (Dec m e) b = (if 0 \<le> e then b < m * 10 ^ nat e else b * 10 ^ nat (- e) < m)"

definition js_less :: "json \<Rightarrow> int \<Rightarrow> js_error + bool" where
  "js_less v b = bindE (to_number v) (\<lambda>n. Inr (num_less n b))"

definition js_greater :: "json \<Rightarrow> int \<Rightarrow> js_error + bool" where
  "js_greater v b = bindE (to_number v) (\<lambda>n. Inr (num_greater n b))"

section \<open>The class \<open>SafeFile\<close>\<close>

definition INTEGRITY_KEY :: jstring where
  "INTEGRITY_KEY = ascii ''_sf_integrity''"

definition TIMESTAMP_KEY :: jstring where
  "TIMESTAMP_KEY = ascii ''_sf_timestamp''"

definition VERSION_KEY :: jstring where
  "VERSION_KEY = ascii ''_sf_version''"

subsection \<open>\<open>generateDynamicKey\<close>\<close>

text \<open>
  \<open>xs.filter(m => m.done)\<close> and \<open>xs.map(m => m.name)\<close>. The receiver of \<open>filter\<close> has to
  be an array: any other value has no method of that name.
\<close>

fun filter_done :: "json list \<Rightarrow> js_error + json list" where
  "filter_done [] = Inr []"
| "filter_done (m # ms) =
     bindE (get_prop m (ascii ''done''))
       (\<lambda>d. bindE (filter_done ms) (\<lambda>r. Inr (if truthy d then m # r else r)))"

fun map_name :: "json list \<Rightarrow> js_error + json list" where
  "map_name [] = Inr []"
| "map_name (m # ms) =
     bindE (get_prop m (ascii ''name'')) (\<lambda>n. bindE (map_name ms) (\<lambda>r. Inr (n # r)))"

fun call_filter_done :: "json \<Rightarrow> js_error + json list" where
  "call_filter_done (JArr xs) = filter_done xs"
| "call_filter_done JUndefined = Inl ReadOfNullish"
| "call_filter_done JNull = Inl ReadOfNullish"
| "call_filter_done _ = Inl NotCallable"

text \<open>\<open>Object.keys(saveData.unlocked || {})\<close>, which lines 11, 19, 107 and 177 evaluate.\<close>

definition unlocked_keys :: "json \<Rightarrow> js_error + jstring list" where
  "unlocked_keys saveData =
     bindE (get_prop saveData (ascii ''unlocked'')) (\<lambda>u. objectKeys (js_or u (JObj [])))"

text \<open>The object \<open>features\<close> of lines 10 to 22, its members evaluated in source order.\<close>

definition features :: "json \<Rightarrow> js_error + json" where
  "features saveData =
     bindE (unlocked_keys saveData) (\<lambda>names.
     bindE (get_prop saveData (ascii ''missions'')) (\<lambda>ms.
     bindE (call_filter_done (js_or ms (JArr []))) (\<lambda>finished.
     bindE (map_name finished) (\<lambda>ns.
     bindE (js_sort ns) (\<lambda>sorted.
     bindE (js_join (ascii '','') sorted) (\<lambda>missionProgress.
     bindE (unlocked_keys saveData) (\<lambda>names'.
     bindE (get_prop saveData (ascii ''version'')) (\<lambda>version.
       Inr (JObj
         [(ascii ''unlocked'', JArr (map JStr (sort names))),
          (ascii ''missionProgress'', JStr missionProgress),
          (ascii ''stats'', JObj
             [(ascii ''unlockedCount'', JNum (int (length names'))),
              (ascii ''version'', js_or version (JNum 1))])])))))))))"

definition generateDynamicKey :: "json \<Rightarrow> js_error + jstring" where
  "generateDynamicKey saveData =
     bindE (features saveData) (\<lambda>fs.
       let seed = stringify fs;
           seedBuffer = encode seed;
           hashArray = sha256 seedBuffer
       in bindE (btoa (fromCharCode hashArray)) (\<lambda>b. Inr (take 32 b)))"

subsection \<open>\<open>generateSignature\<close>\<close>

definition generateSignature :: "json \<Rightarrow> jstring \<Rightarrow> js_error + jstring" where
  "generateSignature saveData dynamicKey =
     bindE (objectKeys saveData) (\<lambda>ks.
       let normalizedData = stringify_keys saveData (sort ks);
           dataBuffer = encode normalizedData;
           keyBuffer = encode dynamicKey
       in if keyBuffer = [] then Inl EmptyKeyData
          else btoa (fromCharCode (hmac_sha256 keyBuffer dataBuffer)))"

subsection \<open>\<open>validateGameLogic\<close>\<close>

datatype validation = Valid | Invalid vreason

definition validateGameLogic :: "json \<Rightarrow> validation" where
  "validateGameLogic saveData =
     (case
        (if typeof saveData \<noteq> TObject \<or> saveData = JNull then Inr (Invalid SaveFormatError)
         else
           bindE (get_prop saveData (ascii ''unlocked'')) (\<lambda>u.
           bindE (get_prop saveData (ascii ''history'')) (\<lambda>h.
           bindE (get_prop saveData (ascii ''missions'')) (\<lambda>m.
             let unlocked = js_or u (JObj []);
                 history = js_or h (JArr []);
                 missions = js_or m (JArr [])
             in if typeof unlocked \<noteq> TObject then Inr (Invalid UnlockedFormatError)
                else if \<not> isArray history then Inr (Invalid HistoryFormatError)
                else if \<not> isArray missions then Inr (Invalid MissionsFormatError)
                else Inr Valid))))
      of Inl e \<Rightarrow> Invalid ParseError
       | Inr r \<Rightarrow> r)"

subsection \<open>\<open>secureExport\<close>\<close>

text \<open>
  The clock is an argument: \<open>now\<close> is what \<open>Date.now()\<close> returns during the call, in
  milliseconds since the epoch. Each of the two operations reads the clock at most once.
\<close>

record export_info =
  elements :: nat
  history :: json
  missions :: json

datatype export_result =
    ExportSuccess json export_info
  | ExportFailure js_error

definition secureExport_try :: "int \<Rightarrow> json \<Rightarrow> js_error + export_result" where
  "secureExport_try now saveData =
     (case validateGameLogic saveData of
        Invalid r \<Rightarrow> Inl (StructureError r)
      | Valid \<Rightarrow>
          bindE (generateDynamicKey saveData) (\<lambda>dynamicKey.
          bindE (generateSignature saveData dynamicKey) (\<lambda>signature.
            let secureData =
                  JObj (put_prop (put_prop (put_prop (own_props saveData)
                    INTEGRITY_KEY (JStr signature))
                    TIMESTAMP_KEY (JNum now))
                    VERSION_KEY (JStr (ascii ''1.0'')))
            in
              bindE (unlocked_keys saveData) (\<lambda>names.
              bindE (get_prop saveData (ascii ''history'')) (\<lambda>h.
              bindE (get_prop (js_or h (JArr [])) (ascii ''length'')) (\<lambda>hl.
              bindE (get_prop saveData (ascii ''missions'')) (\<lambda>m.
              bindE (get_prop (js_or m (JArr [])) (ascii ''length'')) (\<lambda>ml.
                Inr (ExportSuccess secureData
                  \<lparr>elements = length names, history = hl, missions = ml\<rparr>)))))))))"

text \<open>The \<open>catch\<close> clause of line 112 turns any exception into a failure result.\<close>

definition secureExport :: "int \<Rightarrow> json \<Rightarrow> export_result" where
  "secureExport now saveData =
     (case secureExport_try now saveData of Inl error \<Rightarrow> ExportFailure error | Inr r \<Rightarrow> r)"

subsection \<open>\<open>secureImport\<close>\<close>

datatype import_reason =
    NotSecureFormat           \<comment> \<open>line 134: this is not a secure save format\<close>
  | TimestampAbnormal         \<comment> \<open>line 147: the timestamp of the save is abnormal\<close>
  | StructureInvalid vreason  \<comment> \<open>line 157: structure error, with the validator's reason\<close>
  | IntegrityFailed           \<comment> \<open>line 168: integrity check failed, possibly modified\<close>
  | ImportError js_error      \<comment> \<open>line 185: import error, with the message of the exception\<close>

text \<open>
  \<open>importTime\<close> is the argument given to \<open>new Date\<close>; how \<open>toLocaleString\<close> writes
  that moment depends on the locale of the machine.
\<close>

record import_info =
  importTime :: json
  importedElements :: nat
  verified :: bool

datatype import_result =
    ImportSuccess json import_info
  | ImportFailure import_reason

text \<open>\<open>new Date('2025-01-01').getTime()\<close>, midnight UTC, and one day.\<close>

definition releaseTime :: int where
  "releaseTime = 1735689600000"

definition dayInMs :: int where
  "dayInMs = 24 * 60 * 60 * 1000"

definition timestamp_abnormal :: "int \<Rightarrow> json \<Rightarrow> js_error + bool" where
  "timestamp_abnormal now timestamp =
     bindE (js_less timestamp releaseTime) (\<lambda>early.
       if early then Inr True else js_greater timestamp (now + dayInMs))"

definition secureImport_try :: "int \<Rightarrow> json \<Rightarrow> js_error + import_result" where
  "secureImport_try now importedData =
     bindE (get_prop importedData INTEGRITY_KEY) (\<lambda>signature.
     bindE (get_prop importedData TIMESTAMP_KEY) (\<lambda>timestamp.
     bindE (get_prop importedData VERSION_KEY) (\<lambda>sfVersion.
       let gameData = rest_props [INTEGRITY_KEY, TIMESTAMP_KEY, VERSION_KEY] importedData
       in
         if \<not> truthy signature then Inr (ImportFailure NotSecureFormat)
         else
           bindE (if truthy timestamp then timestamp_abnormal now timestamp else Inr False)
             (\<lambda>abnormal.
               if abnormal then Inr (ImportFailure TimestampAbnormal)
               else
                 (case validateGameLogic gameData of
                    Invalid r \<Rightarrow> Inr (ImportFailure (StructureInvalid r))
                  | Valid \<Rightarrow>
                      bindE (generateDynamicKey gameData) (\<lambda>expectedKey.
                      bindE (generateSignature gameData expectedKey) (\<lambda>expectedSignature.
                        if signature \<noteq> JStr expectedSignature
                        then Inr (ImportFailure IntegrityFailed)
                        else
                          bindE (unlocked_keys gameData) (\<lambda>names.
                            Inr (ImportSuccess gameData
                              \<lparr>importTime = js_or timestamp (JNum now),
                               importedElements = length names,
                               verified = True\<rparr>)))))))))"

text \<open>The \<open>catch\<close> clause of line 182.\<close>

definition secureImport :: "int \<Rightarrow> json \<Rightarrow> import_result" where
  "secureImport now importedData =
     (case secureImport_try now importedData of
        Inl error \<Rightarrow> ImportFailure (ImportError error)
      | Inr r \<Rightarrow> r)"

section \<open>Reading objects and results\<close>

text \<open>The member \<open>p\<close> of an object with the properties \<open>kvs\<close>; \<open>undefined\<close> when absent.\<close>

definition field :: "(jstring \<times> json) list \<Rightarrow> jstring \<Rightarrow> json" where
  "field kvs p = (case map_of kvs p of Some x \<Rightarrow> x | None \<Rightarrow> JUndefined)"

fun obj_fields :: "json \<Rightarrow> (jstring \<times> json) list" where
  "obj_fields (JObj kvs) = kvs"
| "obj_fields _ = []"

fun arr_elems :: "json \<Rightarrow> json list" where
  "arr_elems (JArr xs) = xs"
| "arr_elems _ = []"

text \<open>
  The member \<open>data\<close> of what \<open>secureExport\<close> returns: the envelope of a success, and
  \<open>undefined\<close> for a failure, which has no such member.
\<close>

definition exported_data :: "export_result \<Rightarrow> json" where
  "exported_data r = (case r of ExportSuccess d i \<Rightarrow> d | ExportFailure e \<Rightarrow> JUndefined)"

section \<open>The importer on a store\<close>

text \<open>
  \<open>sort\<close> reorders its receiver in place, and the object \<open>gameData\<close> that the rest
  pattern of line 128 builds is a shallow copy: each of its members is the very array or
  object that \<open>importedData\<close> holds under the same name. Whether the importer changes its
  input therefore depends on which arrays it sorts, and the functions above, which return
  new values, cannot tell. The functions of this section run the same statements on a
  store.

  The store holds the input and the arrays allocated during the call. An array is named by
  a reference: \<open>Member p\<close> is the array that \<open>gameData.p\<close> and \<open>importedData.p\<close> share,
  \<open>Fresh i\<close> is the array of the \<open>i\<close>-th allocation. Nothing assigns to a member of
  \<open>gameData\<close> itself, so that object is read off the input.
\<close>

record state =
  input :: json
  fresh :: "json list list"

datatype aref = Member jstring | Fresh nat

type_synonym 'a comp = "state \<Rightarrow> (js_error + 'a) \<times> state"

definition gameData_of :: "state \<Rightarrow> json" where
  "gameData_of st = rest_props [INTEGRITY_KEY, TIMESTAMP_KEY, VERSION_KEY] (input st)"

text \<open>Reading the elements of an array, and overwriting them.\<close>

definition deref :: "state \<Rightarrow> aref \<Rightarrow> json list" where
  "deref st r =
     (case r of
        Member p \<Rightarrow> arr_elems (field (obj_fields (gameData_of st)) p)
      | Fresh i \<Rightarrow> if i < length (fresh st) then fresh st ! i else [])"

definition assign :: "aref \<Rightarrow> json list \<Rightarrow> state \<Rightarrow> state" where
  "assign r ys st =
     (case r of
        Member p \<Rightarrow> st\<lparr>input := JObj (put_prop (own_props (input st)) p (JArr ys))\<rparr>
      | Fresh i \<Rightarrow> st\<lparr>fresh := (fresh st)[i := ys]\<rparr>)"

definition alloc :: "json list \<Rightarrow> aref comp" where
  "alloc xs st = (Inr (Fresh (length (fresh st))), st\<lparr>fresh := fresh st @ [xs]\<rparr>)"

text \<open>Sequencing: an exception ends the computation and keeps the store reached so far.\<close>

definition liftS :: "js_error + 'a \<Rightarrow> 'a comp" where
  "liftS r st = (r, st)"

definition readS :: "(state \<Rightarrow> js_error + 'a) \<Rightarrow> 'a comp" where
  "readS f st = (f st, st)"

definition bindS :: "'a comp \<Rightarrow> ('a \<Rightarrow> 'b comp) \<Rightarrow> 'b comp" where
  "bindS m f st = (case m st of (Inl e, st') \<Rightarrow> (Inl e, st') | (Inr x, st') \<Rightarrow> f x st')"

text \<open>
  The array methods. \<open>sort\<close> writes the ordered elements back to its receiver and returns
  the receiver; when a conversion throws, nothing has been written. \<open>filter\<close>, \<open>map\<close> and
  \<open>Object.keys\<close> return a new array; \<open>join\<close> only reads.
\<close>

definition sortS :: "aref \<Rightarrow> aref comp" where
  "sortS r st =
     (case js_sort (deref st r) of
        Inl e \<Rightarrow> (Inl e, st)
      | Inr ys \<Rightarrow> (Inr r, assign r ys st))"

definition filterDoneS :: "aref \<Rightarrow> aref comp" where
  "filterDoneS r = bindS (readS (\<lambda>st. filter_done (deref st r))) alloc"

definition mapNameS :: "aref \<Rightarrow> aref comp" where
  "mapNameS r = bindS (readS (\<lambda>st. map_name (deref st r))) alloc"

definition joinS :: "jstring \<Rightarrow> aref \<Rightarrow> jstring comp" where
  "joinS sep r = readS (\<lambda>st. js_join sep (deref st r))"

definition keysS :: "json \<Rightarrow> aref comp" where
  "keysS v = bindS (liftS (objectKeys v)) (\<lambda>ks. alloc (map JStr ks))"

text \<open>
  \<open>(saveData.missions || [])\<close> as the receiver of \<open>filter\<close>: the shared array when the member
  is one, a new empty array when the member is falsy, and otherwise a value without that
  method.
\<close>

fun receiver :: "jstring \<Rightarrow> json \<Rightarrow> aref comp" where
  "receiver p (JArr xs) = liftS (Inr (Member p))"
| "receiver p JUndefined = liftS (Inl ReadOfNullish)"
| "receiver p JNull = liftS (Inl ReadOfNullish)"
| "receiver p _ = liftS (Inl NotCallable)"

definition member_or_empty :: "jstring \<Rightarrow> aref comp" where
  "member_or_empty p =
     bindS (readS (\<lambda>st. get_prop (gameData_of st) p))
       (\<lambda>v. if truthy v then receiver p v else alloc [])"

definition unlockedKeysS :: "aref comp" where
  "unlockedKeysS =
     bindS (readS (\<lambda>st. get_prop (gameData_of st) (ascii ''unlocked'')))
       (\<lambda>u. keysS (js_or u (JObj [])))"

text \<open>Lines 12 to 16, the chain of method calls that gives \<open>missionProgress\<close>.\<close>

definition progressS :: "jstring comp" where
  "progressS =
     bindS (bindS (bindS (bindS (member_or_empty (ascii ''missions''))
       filterDoneS) mapNameS) sortS) (joinS (ascii '',''))"

text \<open>
  Lines 10 to 22. The object \<open>features\<close> holds the sorted array of names by reference;
  its elements are read when the object is serialised.
\<close>

definition featuresS :: "json comp" where
  "featuresS =
     bindS (bindS unlockedKeysS sortS) (\<lambda>names.
     bindS progressS (\<lambda>missionProgress.
     bindS unlockedKeysS (\<lambda>names'.
     bindS (readS (\<lambda>st. get_prop (gameData_of st) (ascii ''version''))) (\<lambda>version.
     readS (\<lambda>st.
       Inr (JObj
         [(ascii ''unlocked'', JArr (deref st names)),
          (ascii ''missionProgress'', JStr missionProgress),
          (ascii ''stats'', JObj
             [(ascii ''unlockedCount'', JNum (int (length (deref st names')))),
              (ascii ''version'', js_or version (JNum 1))])]))))))"

definition generateDynamicKeyS :: "jstring comp" where
  "generateDynamicKeyS =
     bindS featuresS (\<lambda>fs.
       let seed = stringify fs;
           seedBuffer = encode seed;
           hashArray = sha256 seedBuffer
       in liftS (bindE (btoa (fromCharCode hashArray)) (\<lambda>b. Inr (take 32 b))))"

text \<open>
  The names that an array given as the replacer contributes: its strings, and its numbers
  in decimal.
\<close>

fun replacer_names :: "json list \<Rightarrow> jstring list" where
  "replacer_names [] = []"
| "replacer_names (JStr s # xs) = s # replacer_names xs"
| "replacer_names (JNum n # xs) = dec_int n # replacer_names xs"
| "replacer_names (_ # xs) = replacer_names xs"

definition generateSignatureS :: "jstring \<Rightarrow> jstring comp" where
  "generateSignatureS dynamicKey =
     bindS (bindS (bindS (readS (\<lambda>st. Inr (gameData_of st))) keysS) sortS) (\<lambda>ks.
       readS (\<lambda>st.
         let normalizedData = stringify_keys (gameData_of st) (replacer_names (deref st ks));
             dataBuffer = encode normalizedData;
             keyBuffer = encode dynamicKey
         in if keyBuffer = [] then Inl EmptyKeyData
            else btoa (fromCharCode (hmac_sha256 keyBuffer dataBuffer))))"

definition secureImportS_try :: "int \<Rightarrow> import_result comp" where
  "secureImportS_try now =
     bindS (readS (\<lambda>st. get_prop (input st) INTEGRITY_KEY)) (\<lambda>signature.
     bindS (readS (\<lambda>st. get_prop (input st) TIMESTAMP_KEY)) (\<lambda>timestamp.
     bindS (readS (\<lambda>st. get_prop (input st) VERSION_KEY)) (\<lambda>sfVersion.
       if \<not> truthy signature then liftS (Inr (ImportFailure NotSecureFormat))
       else
         bindS (liftS (if truthy timestamp then timestamp_abnormal now timestamp else Inr False))
           (\<lambda>abnormal.
             if abnormal then liftS (Inr (ImportFailure TimestampAbnormal))
             else
               bindS (readS (\<lambda>st. Inr (validateGameLogic (gameData_of st)))) (\<lambda>logicCheck.
                 case logicCheck of
                   Invalid r \<Rightarrow> liftS (Inr (ImportFailure (StructureInvalid r)))
                 | Valid \<Rightarrow>
                     bindS generateDynamicKeyS (\<lambda>expectedKey.
                     bindS (generateSignatureS expectedKey) (\<lambda>expectedSignature.
                       if signature \<noteq> JStr expectedSignature
                       then liftS (Inr (ImportFailure IntegrityFailed))
                       else
                         bindS unlockedKeysS (\<lambda>names.
                           readS (\<lambda>st.
                             Inr (ImportSuccess (gameData_of st)
                               \<lparr>importTime = js_or timestamp (JNum now),
                                importedElements = length (deref st names),
                                verified = True\<rparr>))))))))))"

text \<open>The importer on a store: the result, and the store the call leaves behind.\<close>

definition secureImportS :: "int \<Rightarrow> state \<Rightarrow> import_result \<times> state" where
  "secureImportS now st =
     (case secureImportS_try now st of
        (Inl error, st') \<Rightarrow> (ImportFailure (ImportError error), st')
      | (Inr r, st') \<Rightarrow> (r, st'))"

text \<open>A store with further arrays allocated.\<close>

definition ext :: "state \<Rightarrow> json list list \<Rightarrow> state" where
  "ext st zs = st\<lparr>fresh := fresh st @ zs\<rparr>"

section \<open>The snapshot and its fingerprint, in the words of the specification\<close>

text \<open>
  The data model of the specification: a snapshot is an object with a mapping \<open>unlocked\<close>
  from entity names to display data, a sequence \<open>history\<close>, a sequence \<open>missions\<close> of
  records with a name and a completion flag, and an integer \<open>version\<close>. A member
  may be missing, as the validator and the key derivation allow.
\<close>

definition mission_record :: "json \<Rightarrow> bool" where
  "mission_record m =
     (case m of
        JObj fs \<Rightarrow>
          (case field fs (ascii ''name'') of JStr n \<Rightarrow> True | _ \<Rightarrow> False)
          \<and> (case field fs (ascii ''done'') of JBool b \<Rightarrow> True | _ \<Rightarrow> False)
      | _ \<Rightarrow> False)"

definition is_snapshot :: "json \<Rightarrow> bool" where
  "is_snapshot s =
     (case s of
        JObj fs \<Rightarrow>
          (case field fs (ascii ''unlocked'') of
             JObj us \<Rightarrow> True | JUndefined \<Rightarrow> True | _ \<Rightarrow> False)
          \<and> (case field fs (ascii ''history'') of
               JArr hs \<Rightarrow> True | JUndefined \<Rightarrow> True | _ \<Rightarrow> False)
          \<and> (case field fs (ascii ''missions'') of
               JArr ms \<Rightarrow> list_all mission_record ms | JUndefined \<Rightarrow> True | _ \<Rightarrow> False)
          \<and> (case field fs (ascii ''version'') of
               JNum v \<Rightarrow> True | JUndefined \<Rightarrow> True | _ \<Rightarrow> False)
      | _ \<Rightarrow> False)"

definition mission_name :: "json \<Rightarrow> jstring" where
  "mission_name m = (case field (obj_fields m) (ascii ''name'') of JStr n \<Rightarrow> n | _ \<Rightarrow> [])"

definition mission_done :: "json \<Rightarrow> bool" where
  "mission_done m = (field (obj_fields m) (ascii ''done'') = JBool True)"

text \<open>
  The reduced fingerprint as the specification words it: the sorted unlocked entity
  names, the sorted names of the missions with \<open>done = true\<close>, the number of unlocked
  entities, and the schema version, 1 when absent.
\<close>

record fingerprint =
  unlocked_names :: "jstring list"
  finished_names :: "jstring list"
  unlocked_count :: nat
  schema_version :: json

definition spec_fingerprint :: "json \<Rightarrow> fingerprint" where
  "spec_fingerprint s =
     \<lparr>unlocked_names = sort (map fst (obj_fields (field (obj_fields s) (ascii ''unlocked'')))),
      finished_names =
        sort (map mission_name
                (filter mission_done (arr_elems (field (obj_fields s) (ascii ''missions''))))),
      unlocked_count = length (obj_fields (field (obj_fields s) (ascii ''unlocked''))),
      schema_version =
        (case field (obj_fields s) (ascii ''version'') of JUndefined \<Rightarrow> JNum 1 | v \<Rightarrow> v)\<rparr>"

text \<open>
  The structure that is serialised and hashed, written from a fingerprint. The finished
  names are joined with commas. The version goes through \<open>|| 1\<close> as in line 20, so a
  version that is present but falsy, such as 0, is written as 1 too.
\<close>

definition fingerprint_features :: "fingerprint \<Rightarrow> json" where
  "fingerprint_features fp =
     JObj
       [(ascii ''unlocked'', JArr (map JStr (unlocked_names fp))),
        (ascii ''missionProgress'', JStr (join_with (ascii '','') (finished_names fp))),
        (ascii ''stats'', JObj
           [(ascii ''unlockedCount'', JNum (int (unlocked_count fp))),
            (ascii ''version'', js_or (schema_version fp) (JNum 1))])]"

section \<open>Example data\<close>

text \<open>
  The snapshot of the concrete scenario of the specification: one unlocked entity
  \<open>Fire\<close>, an empty history, one finished mission \<open>Fire\<close>, version 1. The display data
  are the two code units of an emoji.
\<close>

definition example_fields :: "(jstring \<times> json) list" where
  "example_fields =
     [(ascii ''unlocked'', JObj [(ascii ''Fire'', JArr [JStr [0xD83D, 0xDD25]])]),
      (ascii ''history'', JArr []),
      (ascii ''missions'',
         JArr [JObj [(ascii ''name'', JStr (ascii ''Fire'')),
                     (ascii ''emoji'', JArr [JStr [0xD83D, 0xDD25]]),
                     (ascii ''done'', JBool True)]]),
      (ascii ''version'', JNum 1)]"

definition example_snapshot :: json where
  "example_snapshot = JObj example_fields"

text \<open>The display data that a changed member \<open>unlocked\<close> holds in the examples below.\<close>

definition repainted_unlocked :: json where
  "repainted_unlocked = JObj [(ascii ''Fire'', JArr [JStr [0xD83D, 0xDCA7]])]"

text \<open>The envelope exported for the example at the clock reading 1762000000000.\<close>

definition example_envelope :: json where
  "example_envelope = exported_data (secureExport 1762000000000 example_snapshot)"

section \<open>Properties\<close>

subsection \<open>Auxiliary facts: the error monad, hashes and encodings\<close>

lemma bindE_simps [simp]:
  "bindE (Inl e) f = Inl e"
  "bindE (Inr x) f = f x"
  by (simp_all add: bindE_def)

lemma bindE_eq_Inr: "bindE m f = Inr r \<longleftrightarrow> (\<exists>x. m = Inr x \<and> f x = Inr r)"
  by (cases m) simp_all

lemma length_sha256_round: "length (sha256_round s kw) = length s"
  by (simp add: sha256_round_def Let_def split: list.splits)

lemma length_foldl_round: "length (foldl sha256_round s kws) = length s"
  by (induction kws arbitrary: s) (simp_all add: length_sha256_round)

lemma length_sha256_block: "length (sha256_block h blk) = length h"
  by (simp add: sha256_block_def Let_def length_foldl_round)

lemma length_foldl_block: "length (foldl sha256_block h bs) = length h"
  by (induction bs arbitrary: h) (simp_all add: length_sha256_block)

lemma length_concat_bytes: "length (concat (map bytes_of_u32 ws)) = 4 * length ws"
  by (induction ws) (simp_all add: bytes_of_u32_def)

lemma length_sha256: "length (sha256 m) = 32"
  by (simp add: sha256_def length_concat_bytes length_foldl_block sha256_H0_def)

lemma length_hmac_sha256: "length (hmac_sha256 k m) = 32"
  by (simp add: hmac_sha256_def Let_def length_sha256)

lemma length_base64: "length (base64 xs) = 4 * ((length xs + 2) div 3)"
proof (induction xs rule: base64.induct)
  case (4 a b c rest)
  have "(length (a # b # c # rest) + 2) div 3 = Suc ((length rest + 2) div 3)" by simp
  with 4 show ?case by simp
qed simp_all

lemma unat_ucast_byte: "unat (ucast (b :: byte) :: 16 word) = unat b"
proof -
  have "unat b < 2 ^ 8" using unsigned_less [of b, where 'a = nat] by simp
  then have "unat b < 2 ^ 16" by simp
  then show ?thesis by (simp add: unsigned_ucast_eq take_bit_nat_eq_self)
qed

lemma ucast_byte_less: "(ucast (b :: byte) :: 16 word) < 256"
proof -
  have "unat b < 2 ^ 8" using unsigned_less [of b, where 'a = nat] by simp
  then show ?thesis by (simp add: word_less_nat_alt unat_ucast_byte)
qed

lemma btoa_fromCharCode: "btoa (fromCharCode bs) = Inr (base64 (map unat bs))"
  by (simp add: btoa_def fromCharCode_def comp_def unat_ucast_byte ucast_byte_less list_all_iff)

lemma utf8_point_nonempty: "utf8_point p \<noteq> []"
  by (simp add: utf8_point_def)

lemma encode_nonempty: "s \<noteq> [] \<Longrightarrow> encode s \<noteq> []"
  by (induction s rule: encode.induct) (simp_all add: utf8_point_nonempty)

subsection \<open>Auxiliary facts: properties of values\<close>

lemma key_names_distinct:
  "INTEGRITY_KEY \<noteq> TIMESTAMP_KEY" "INTEGRITY_KEY \<noteq> VERSION_KEY" "TIMESTAMP_KEY \<noteq> VERSION_KEY"
  "TIMESTAMP_KEY \<noteq> INTEGRITY_KEY" "VERSION_KEY \<noteq> INTEGRITY_KEY" "VERSION_KEY \<noteq> TIMESTAMP_KEY"
  by (simp_all add: INTEGRITY_KEY_def TIMESTAMP_KEY_def VERSION_KEY_def ascii_def)

lemma key_names_not_length:
  "INTEGRITY_KEY \<noteq> ascii ''length''" "TIMESTAMP_KEY \<noteq> ascii ''length''"
  "VERSION_KEY \<noteq> ascii ''length''"
  by (simp_all add: INTEGRITY_KEY_def TIMESTAMP_KEY_def VERSION_KEY_def ascii_def)

lemma get_prop_total:
  "e \<noteq> JUndefined \<Longrightarrow> e \<noteq> JNull \<Longrightarrow> \<exists>v. get_prop e p = Inr v"
  by (cases e) (auto split: option.splits)

lemma get_prop_absent:
  assumes "e \<noteq> JUndefined" "e \<noteq> JNull" "p \<notin> fst ` set (own_props e)" "p \<noteq> ascii ''length''"
  shows "get_prop e p = Inr JUndefined"
proof -
  from assms(3) have "map_of (own_props e) p = None" by (simp add: map_of_eq_None_iff)
  with assms show ?thesis by (cases e) simp_all
qed

lemma get_prop_array:
  assumes "p \<notin> set (index_keys (length xs))" and "p \<noteq> ascii ''length''"
  shows "get_prop (JArr xs) p = Inr JUndefined"
proof (rule get_prop_absent)
  show "p \<notin> fst ` set (own_props (JArr xs))"
    using assms(1) by (auto dest: set_zip_leftD)
qed (use assms in simp_all)

lemma get_prop_object: "get_prop (JObj kvs) p = Inr (field kvs p)"
  by (simp add: field_def split: option.splits)

declare get_prop.simps(3-7) [simp del]

declare get_prop_object [simp]

lemma truthy_not_nullish: "truthy v \<Longrightarrow> v \<noteq> JUndefined \<and> v \<noteq> JNull"
  by (cases v) simp_all

lemma objectKeys_total:
  "v \<noteq> JUndefined \<Longrightarrow> v \<noteq> JNull \<Longrightarrow> objectKeys v = Inr (map fst (own_props v))"
  by (cases v) simp_all

lemma objectKeys_js_or:
  "objectKeys (js_or u (JObj [])) = Inr (map fst (own_props (js_or u (JObj []))))"
  by (rule objectKeys_total) (auto simp: js_or_def dest: truthy_not_nullish)

lemma get_prop_js_or: "\<exists>v. get_prop (js_or h (JArr [])) p = Inr v"
  by (rule get_prop_total) (auto simp: js_or_def dest: truthy_not_nullish)

lemma put_prop_absent: "k \<notin> fst ` set kvs \<Longrightarrow> put_prop kvs k v = kvs @ [(k, v)]"
  by (induction kvs) auto

lemma map_of_put_prop:
  "map_of (put_prop kvs k v) k' = (if k' = k then Some v else map_of kvs k')"
  by (induction kvs) auto

lemma field_put_prop: "field (put_prop kvs k v) k' = (if k' = k then v else field kvs k')"
  by (simp add: field_def map_of_put_prop)

lemma filter_put_prop_keep:
  "P k \<Longrightarrow>
   filter (\<lambda>kv. P (fst kv)) (put_prop kvs k v) = put_prop (filter (\<lambda>kv. P (fst kv)) kvs) k v"
  by (induction kvs) auto

lemma filter_put_prop_drop:
  "\<not> P k \<Longrightarrow>
   filter (\<lambda>kv. P (fst kv)) (put_prop kvs k v) = filter (\<lambda>kv. P (fst kv)) kvs"
  by (induction kvs) auto

lemma rest_props_put_reserved:
  "rest_props [INTEGRITY_KEY, TIMESTAMP_KEY, VERSION_KEY] (JObj (put_prop kvs TIMESTAMP_KEY v))
   = rest_props [INTEGRITY_KEY, TIMESTAMP_KEY, VERSION_KEY] (JObj kvs)"
  using filter_put_prop_drop
      [of "\<lambda>x. x \<noteq> INTEGRITY_KEY \<and> x \<noteq> TIMESTAMP_KEY \<and> x \<noteq> VERSION_KEY" TIMESTAMP_KEY kvs v]
  by (simp add: rest_props_def)

lemma rest_props_put:
  assumes "k \<noteq> INTEGRITY_KEY" "k \<noteq> TIMESTAMP_KEY" "k \<noteq> VERSION_KEY"
  shows "rest_props [INTEGRITY_KEY, TIMESTAMP_KEY, VERSION_KEY] (JObj (put_prop kvs k v))
         = JObj (put_prop
             (obj_fields (rest_props [INTEGRITY_KEY, TIMESTAMP_KEY, VERSION_KEY] (JObj kvs))) k v)"
  using assms
    filter_put_prop_keep
      [of "\<lambda>x. x \<noteq> INTEGRITY_KEY \<and> x \<noteq> TIMESTAMP_KEY \<and> x \<noteq> VERSION_KEY" k kvs v]
  by (simp add: rest_props_def)

lemma field_envelope:
  "field (put_prop (put_prop (put_prop kvs INTEGRITY_KEY a) TIMESTAMP_KEY b) VERSION_KEY c)
      INTEGRITY_KEY = a"
  "field (put_prop (put_prop (put_prop kvs INTEGRITY_KEY a) TIMESTAMP_KEY b) VERSION_KEY c)
      TIMESTAMP_KEY = b"
  "field (put_prop (put_prop (put_prop kvs INTEGRITY_KEY a) TIMESTAMP_KEY b) VERSION_KEY c)
      VERSION_KEY = c"
  by (simp_all add: field_put_prop key_names_distinct)

lemma rest_props_envelope:
  assumes "INTEGRITY_KEY \<notin> fst ` set kvs" "TIMESTAMP_KEY \<notin> fst ` set kvs"
    "VERSION_KEY \<notin> fst ` set kvs"
  shows "rest_props [INTEGRITY_KEY, TIMESTAMP_KEY, VERSION_KEY]
           (JObj (put_prop (put_prop (put_prop kvs INTEGRITY_KEY a) TIMESTAMP_KEY b) VERSION_KEY c))
         = JObj kvs"
proof -
  have "filter (\<lambda>kv. fst kv \<noteq> INTEGRITY_KEY \<and> fst kv \<noteq> TIMESTAMP_KEY \<and> fst kv \<noteq> VERSION_KEY) kvs
        = kvs"
    using assms by (force simp: filter_id_conv)
  then show ?thesis using assms
    by (simp add: rest_props_def put_prop_absent key_names_distinct)
qed

subsection \<open>Auxiliary facts: the validator\<close>

lemma digit_unit_range: "d < 10 \<Longrightarrow> 48 \<le> digit_unit d \<and> digit_unit d \<le> 57"
proof -
  assume "d < 10"
  then consider "d = 0" | "d = 1" | "d = 2" | "d = 3" | "d = 4" | "d = 5" | "d = 6" | "d = 7"
    | "d = 8" | "d = 9" by atomize_elim arith
  then show ?thesis by cases (simp_all add: digit_unit_def)
qed

lemma dec_nat_digits: "c \<in> set (dec_nat n) \<Longrightarrow> 48 \<le> c \<and> c \<le> 57"
proof (induction n rule: dec_nat.induct)
  case (1 n)
  show ?case
  proof (cases "n < 10")
    case True
    with "1.prems" show ?thesis by (simp add: dec_nat.simps [of n] digit_unit_range)
  next
    case False
    with "1.prems" have "c \<in> set (dec_nat (n div 10)) \<or> c = digit_unit (n mod 10)"
      by (auto simp: dec_nat.simps [of n])
    then show ?thesis
    proof
      assume "c \<in> set (dec_nat (n div 10))"
      with False "1.IH" show ?thesis by simp
    next
      assume "c = digit_unit (n mod 10)"
      then show ?thesis using digit_unit_range [of "n mod 10"] by simp
    qed
  qed
qed

lemma not_index_key:
  assumes "k = c # cs" and "\<not> (48 \<le> c \<and> c \<le> 57)"
  shows "k \<notin> set (index_keys n)"
proof
  assume "k \<in> set (index_keys n)"
  then obtain i where "k = dec_nat i" by (auto simp: index_keys_def)
  with assms(1) have "c \<in> set (dec_nat i)" by (metis list.set_intros(1))
  then show False using assms(2) dec_nat_digits by blast
qed

lemma validateGameLogic_array: "validateGameLogic (JArr xs) = Valid"
proof -
  have "get_prop (JArr xs) (ascii ''unlocked'') = Inr JUndefined"
    by (rule get_prop_array, rule not_index_key [where c = "0x75" and cs = "ascii ''nlocked''"])
       (simp_all add: ascii_def)
  moreover have "get_prop (JArr xs) (ascii ''history'') = Inr JUndefined"
    by (rule get_prop_array, rule not_index_key [where c = "0x68" and cs = "ascii ''istory''"])
       (simp_all add: ascii_def)
  moreover have "get_prop (JArr xs) (ascii ''missions'') = Inr JUndefined"
    by (rule get_prop_array, rule not_index_key [where c = "0x6D" and cs = "ascii ''issions''"])
       (simp_all add: ascii_def)
  ultimately show ?thesis
    by (simp add: validateGameLogic_def js_or_def)
qed

lemma validateGameLogic_object:
  "validateGameLogic (JObj kvs) =
     (if truthy (field kvs (ascii ''unlocked''))
           \<and> typeof (field kvs (ascii ''unlocked'')) \<noteq> TObject
        then Invalid UnlockedFormatError
      else if truthy (field kvs (ascii ''history'')) \<and> \<not> isArray (field kvs (ascii ''history''))
        then Invalid HistoryFormatError
      else if truthy (field kvs (ascii ''missions'')) \<and> \<not> isArray (field kvs (ascii ''missions''))
        then Invalid MissionsFormatError
      else Valid)"
  by (simp add: validateGameLogic_def js_or_def Let_def)

lemma validateGameLogic_primitive:
  "typeof v \<noteq> TObject \<or> v = JNull \<Longrightarrow> validateGameLogic v = Invalid SaveFormatError"
  by (auto simp: validateGameLogic_def)

lemma validate_not_nullish:
  "validateGameLogic s = Valid \<Longrightarrow> s \<noteq> JUndefined \<and> s \<noteq> JNull"
  by (auto simp: validateGameLogic_def)

subsection \<open>Auxiliary facts: key and signature\<close>

lemma generateDynamicKey_features:
  "generateDynamicKey s =
     bindE (features s)
       (\<lambda>fs. Inr (take 32 (base64 (map unat (sha256 (encode (stringify fs)))))))"
  by (simp add: generateDynamicKey_def Let_def btoa_fromCharCode)

lemma generateDynamicKey_length: "generateDynamicKey s = Inr k \<Longrightarrow> length k = 32"
  by (auto simp: generateDynamicKey_features bindE_eq_Inr length_base64 length_sha256)

lemma generateSignature_total:
  assumes "objectKeys s = Inr ks" and "k \<noteq> []"
  shows "\<exists>g. generateSignature s k = Inr g \<and> length g = 44"
  using assms
  by (simp add: generateSignature_def Let_def btoa_fromCharCode encode_nonempty
                length_base64 length_hmac_sha256)

lemma unlocked_keys_total:
  assumes "s \<noteq> JUndefined" "s \<noteq> JNull"
  shows "\<exists>ks. unlocked_keys s = Inr ks"
proof -
  obtain u where "get_prop s (ascii ''unlocked'') = Inr u"
    using get_prop_total [OF assms] by blast
  then show ?thesis by (simp add: unlocked_keys_def objectKeys_js_or)
qed

lemma unlocked_keys_nullish:
  "unlocked_keys JUndefined = Inl ReadOfNullish" "unlocked_keys JNull = Inl ReadOfNullish"
  by (simp_all add: unlocked_keys_def)

lemma features_not_nullish: "features s = Inr f \<Longrightarrow> s \<noteq> JUndefined \<and> s \<noteq> JNull"
  by (auto simp: features_def unlocked_keys_nullish)

lemma sign_total:
  assumes "features s = Inr f"
  shows "\<exists>k g. generateDynamicKey s = Inr k \<and> generateSignature s k = Inr g \<and> length g = 44"
proof -
  obtain k where k: "generateDynamicKey s = Inr k"
    using assms by (simp add: generateDynamicKey_features)
  then have "length k = 32" by (rule generateDynamicKey_length)
  then have ne: "k \<noteq> []" by auto
  from assms have "s \<noteq> JUndefined" "s \<noteq> JNull" using features_not_nullish by blast+
  then have "objectKeys s = Inr (map fst (own_props s))" by (rule objectKeys_total)
  from generateSignature_total [OF this ne] k show ?thesis by blast
qed

lemma sign_fail: "features s = Inl e \<Longrightarrow> generateDynamicKey s = Inl e"
  by (simp add: generateDynamicKey_features)

lemma generateSignature_cong:
  assumes "objectKeys a = objectKeys b"
    and "\<And>ks. objectKeys b = Inr ks \<Longrightarrow> stringify_keys a (sort ks) = stringify_keys b (sort ks)"
  shows "generateSignature a k = generateSignature b k"
  using assms by (cases "objectKeys b") (simp_all add: generateSignature_def Let_def)

subsection \<open>Auxiliary facts: export and import\<close>

lemma export_invalid:
  "validateGameLogic s = Invalid r \<Longrightarrow> secureExport_try now s = Inl (StructureError r)"
  by (simp add: secureExport_try_def)

lemma export_throw:
  "validateGameLogic s = Valid \<Longrightarrow> features s = Inl e \<Longrightarrow> secureExport_try now s = Inl e"
  by (simp add: secureExport_try_def sign_fail)

lemma export_ok:
  assumes "validateGameLogic s = Valid" and "generateDynamicKey s = Inr k"
    and "generateSignature s k = Inr g"
  shows "\<exists>ks hl ml. unlocked_keys s = Inr ks
         \<and> bindE (get_prop s (ascii ''history''))
              (\<lambda>h. get_prop (js_or h (JArr [])) (ascii ''length'')) = Inr hl
         \<and> bindE (get_prop s (ascii ''missions''))
              (\<lambda>m. get_prop (js_or m (JArr [])) (ascii ''length'')) = Inr ml
         \<and> secureExport_try now s =
           Inr (ExportSuccess (JObj (put_prop (put_prop (put_prop (own_props s)
                  INTEGRITY_KEY (JStr g)) TIMESTAMP_KEY (JNum now))
                  VERSION_KEY (JStr (ascii ''1.0''))))
                \<lparr>elements = length ks, history = hl, missions = ml\<rparr>)"
proof -
  from assms(1) have ne: "s \<noteq> JUndefined" "s \<noteq> JNull" using validate_not_nullish by blast+
  obtain ks where ks: "unlocked_keys s = Inr ks" using unlocked_keys_total [OF ne] by blast
  obtain h where h: "get_prop s (ascii ''history'') = Inr h" using get_prop_total [OF ne] by blast
  obtain m where m: "get_prop s (ascii ''missions'') = Inr m" using get_prop_total [OF ne] by blast
  obtain hl where hl: "get_prop (js_or h (JArr [])) (ascii ''length'') = Inr hl"
    using get_prop_js_or by blast
  obtain ml where ml: "get_prop (js_or m (JArr [])) (ascii ''length'') = Inr ml"
    using get_prop_js_or by blast
  show ?thesis using assms ks h m hl ml
    by (simp add: secureExport_try_def Let_def)
qed

lemma export_try_cases:
  "(\<exists>err. secureExport_try now s = Inl err)
   \<or> (\<exists>d i. secureExport_try now s = Inr (ExportSuccess d i))"
proof (cases "validateGameLogic s")
  case (Invalid r)
  then show ?thesis by (simp add: export_invalid)
next
  case Valid
  show ?thesis
  proof (cases "features s")
    case (Inl e)
    with Valid show ?thesis by (simp add: export_throw)
  next
    case (Inr f)
    then obtain k g where "generateDynamicKey s = Inr k" "generateSignature s k = Inr g"
      using sign_total by blast
    from export_ok [OF Valid this, of now] show ?thesis by blast
  qed
qed


lemma import_falsy_signature:
  assumes "get_prop e INTEGRITY_KEY = Inr v" and "\<not> truthy v"
  shows "secureImport now e = ImportFailure NotSecureFormat"
proof -
  from assms(1) have ne: "e \<noteq> JUndefined" "e \<noteq> JNull" by auto
  obtain t where t: "get_prop e TIMESTAMP_KEY = Inr t" using get_prop_total [OF ne] by blast
  obtain w where w: "get_prop e VERSION_KEY = Inr w" using get_prop_total [OF ne] by blast
  show ?thesis using assms t w by (simp add: secureImport_def secureImport_try_def)
qed

lemma js_less_num: "js_less (JNum t) b = Inr (t < b)"
  by (simp add: js_less_def)

lemma js_greater_num: "js_greater (JNum t) b = Inr (b < t)"
  by (simp add: js_greater_def)

lemma timestamp_abnormal_num:
  "timestamp_abnormal now (JNum t) = Inr (t < releaseTime \<or> now + dayInMs < t)"
  by (auto simp: timestamp_abnormal_def js_less_num js_greater_num)

lemma gate_clock:
  assumes "te = 0 \<or> (releaseTime \<le> te \<and> te \<le> ti + dayInMs)"
  shows "\<not> truthy (JNum te) \<or> timestamp_abnormal ti (JNum te) = Inr False"
  using assms by (auto simp: timestamp_abnormal_num)

lemma timestamp_gate_iff:
  assumes "get_prop e INTEGRITY_KEY = Inr sg" and "get_prop e TIMESTAMP_KEY = Inr (JNum t)"
  shows "secureImport now e = ImportFailure TimestampAbnormal \<longleftrightarrow>
         truthy sg \<and> t \<noteq> 0 \<and> (t < releaseTime \<or> now + dayInMs < t)"
proof -
  from assms(1) have ne: "e \<noteq> JUndefined" "e \<noteq> JNull" by auto
  obtain w where w: "get_prop e VERSION_KEY = Inr w" using get_prop_total [OF ne] by blast
  show ?thesis
    by (cases "validateGameLogic (rest_props [INTEGRITY_KEY, TIMESTAMP_KEY, VERSION_KEY] e)")
       (use assms w in \<open>auto simp: secureImport_def secureImport_try_def timestamp_abnormal_num
             Let_def bindE_eq_Inr split: sum.splits if_splits\<close>)
qed

lemma import_gates_passed:
  assumes "get_prop e INTEGRITY_KEY = Inr sg" and "truthy sg"
    and "get_prop e TIMESTAMP_KEY = Inr ts"
    and "\<not> truthy ts \<or> timestamp_abnormal now ts = Inr False"
  shows "secureImport now e =
     (let g = rest_props [INTEGRITY_KEY, TIMESTAMP_KEY, VERSION_KEY] e in
      case validateGameLogic g of
        Invalid r \<Rightarrow> ImportFailure (StructureInvalid r)
      | Valid \<Rightarrow>
         (case bindE (generateDynamicKey g) (generateSignature g) of
            Inl err \<Rightarrow> ImportFailure (ImportError err)
          | Inr x \<Rightarrow>
              if sg \<noteq> JStr x then ImportFailure IntegrityFailed
              else ImportSuccess g
                     \<lparr>importTime = js_or ts (JNum now),
                      importedElements =
                        (case unlocked_keys g of Inl err \<Rightarrow> 0 | Inr names \<Rightarrow> length names),
                      verified = True\<rparr>))"
proof -
  from assms(1) have ne: "e \<noteq> JUndefined" "e \<noteq> JNull" by auto
  obtain w where w: "get_prop e VERSION_KEY = Inr w" using get_prop_total [OF ne] by blast
  let ?g = "rest_props [INTEGRITY_KEY, TIMESTAMP_KEY, VERSION_KEY] e"
  have "?g \<noteq> JUndefined" "?g \<noteq> JNull" by (simp_all add: rest_props_def)
  then obtain ks where ks: "unlocked_keys ?g = Inr ks" using unlocked_keys_total by blast
  show ?thesis using assms w ks
    by (auto simp: secureImport_def secureImport_try_def Let_def bindE_def
             split: sum.splits validation.splits)
qed


lemma import_clock:
  assumes "get_prop e TIMESTAMP_KEY = Inr ts" and "truthy ts"
    and "timestamp_abnormal now1 ts = timestamp_abnormal now2 ts"
  shows "secureImport now1 e = secureImport now2 e"
proof -
  have a: "js_or ts (JNum now1) = ts" "js_or ts (JNum now2) = ts"
    using assms(2) by (simp_all add: js_or_def)
  show ?thesis
    unfolding secureImport_def secureImport_try_def assms(1) bindE_simps a assms(3)
    by (rule refl)
qed


lemma round_trip_aux:
  assumes "validateGameLogic (JObj kvs) = Valid" and "features (JObj kvs) = Inr f"
    and "INTEGRITY_KEY \<notin> fst ` set kvs" and "TIMESTAMP_KEY \<notin> fst ` set kvs"
    and "VERSION_KEY \<notin> fst ` set kvs"
    and "te = 0 \<or> (releaseTime \<le> te \<and> te \<le> ti + dayInMs)"
  shows "\<exists>env info. secureExport te (JObj kvs) = ExportSuccess env info
           \<and> secureImport ti env =
               ImportSuccess (JObj kvs)
                 \<lparr>importTime = JNum (if te = 0 then ti else te),
                  importedElements = elements info, verified = True\<rparr>"
proof -
  let ?s = "JObj kvs"
  obtain k g where kg: "generateDynamicKey ?s = Inr k" "generateSignature ?s k = Inr g"
      "length g = 44" using sign_total [OF assms(2)] by blast
  let ?env = "JObj (put_prop (put_prop (put_prop (own_props ?s)
                  INTEGRITY_KEY (JStr g)) TIMESTAMP_KEY (JNum te))
                  VERSION_KEY (JStr (ascii ''1.0'')))"
  from export_ok [OF assms(1) kg(1) kg(2), of te] obtain info ks where
    ex: "secureExport te ?s = ExportSuccess ?env info" and
    ks: "unlocked_keys ?s = Inr ks" "elements info = length ks"
    by (fastforce simp: secureExport_def)
  have rest: "rest_props [INTEGRITY_KEY, TIMESTAMP_KEY, VERSION_KEY] ?env = ?s"
    using rest_props_envelope [OF assms(3,4,5)] by simp
  have tr: "truthy (JStr g)" using kg(3) by auto
  have jo: "js_or (JNum te) (JNum ti) = JNum (if te = 0 then ti else te)"
    by (simp add: js_or_def)
  have i: "get_prop ?env INTEGRITY_KEY = Inr (JStr g)" by (simp add: field_envelope)
  have t: "get_prop ?env TIMESTAMP_KEY = Inr (JNum te)" by (simp add: field_envelope)
  have "secureImport ti ?env =
          ImportSuccess ?s \<lparr>importTime = JNum (if te = 0 then ti else te),
                  importedElements = elements info, verified = True\<rparr>"
    unfolding import_gates_passed [OF i tr t gate_clock [OF assms(6)]] rest jo
    using assms(1) kg ks by (simp add: Let_def)
  with ex show ?thesis by blast
qed

subsection \<open>Auxiliary facts: snapshots and the example\<close>

lemma filter_done_records:
  "list_all mission_record ms \<Longrightarrow> filter_done ms = Inr (filter mission_done ms)"
proof (induction ms)
  case Nil
  then show ?case by simp
next
  case (Cons m ms)
  then obtain fs n b where m: "m = JObj fs" "field fs (ascii ''name'') = JStr n"
      "field fs (ascii ''done'') = JBool b"
    by (auto simp: mission_record_def split: json.splits)
  with Cons show ?case by (simp add: mission_done_def)
qed

lemma map_name_records:
  "list_all mission_record ms \<Longrightarrow> map_name ms = Inr (map (JStr \<circ> mission_name) ms)"
proof (induction ms)
  case Nil
  then show ?case by simp
next
  case (Cons m ms)
  then obtain fs n b where m: "m = JObj fs" "field fs (ascii ''name'') = JStr n"
      "field fs (ascii ''done'') = JBool b"
    by (auto simp: mission_record_def split: json.splits)
  with Cons show ?case by (simp add: mission_name_def)
qed

lemma to_strings_strs: "to_strings (map JStr ns) = Inr ns"
  by (induction ns) simp_all

lemma elem_strings_strs: "elem_strings (map JStr ns) = Inr ns"
  by (induction ns) simp_all

lemma insort_key_pairs:
  "insort_key fst (n, f n) (map (\<lambda>x. (x, f x)) ys) = map (\<lambda>x. (x, f x)) (insort n ys)"
  by (induction ys) simp_all

lemma sort_key_pairs:
  "sort_key fst (map (\<lambda>x. (x, f x)) ns) = map (\<lambda>x. (x, f x)) (sort ns)"
  by (induction ns) (simp_all add: insort_key_pairs)

lemma zip_with_image: "zip ns (map f ns) = map (\<lambda>x. (x, f x)) ns"
  by (induction ns) simp_all

lemma sort_short: "length (ns :: jstring list) < 2 \<Longrightarrow> sort ns = ns"
  by (cases ns) (auto simp: length_Suc_conv)

lemma js_sort_strs: "js_sort (map JStr ns) = Inr (map JStr (sort ns))"
proof -
  have f1: "filter (\<lambda>x. x \<noteq> JUndefined) (map JStr ns) = map JStr ns"
    by (induction ns) simp_all
  have f2: "filter (\<lambda>x. x = JUndefined) (map JStr ns) = []"
    by (induction ns) simp_all
  show ?thesis
    by (simp add: js_sort_def f1 f2 Let_def to_strings_strs zip_with_image sort_key_pairs
                  comp_def sort_short)
qed

lemma js_sort_names: "js_sort (map (JStr \<circ> f) xs) = Inr (map JStr (sort (map f xs)))"
  using js_sort_strs [of "map f xs"] by simp

lemma js_join_strs: "js_join sep (map JStr ns) = Inr (join_with sep ns)"
  by (simp add: js_join_def elem_strings_strs)

lemma features_snapshot:
  assumes "is_snapshot s"
  shows "features s = Inr (fingerprint_features (spec_fingerprint s))"
proof -
  from assms obtain fs where s: "s = JObj fs" by (auto simp: is_snapshot_def split: json.splits)
  let ?u = "field fs (ascii ''unlocked'')"
  let ?m = "field fs (ascii ''missions'')"
  let ?v = "field fs (ascii ''version'')"
  have u: "(\<exists>us. ?u = JObj us) \<or> ?u = JUndefined"
    using assms by (auto simp: is_snapshot_def s split: json.splits)
  have m: "(\<exists>ms. ?m = JArr ms \<and> list_all mission_record ms) \<or> ?m = JUndefined"
    using assms by (auto simp: is_snapshot_def s split: json.splits)
  have v: "(\<exists>n. ?v = JNum n) \<or> ?v = JUndefined"
    using assms by (auto simp: is_snapshot_def s split: json.splits)
  have keys: "unlocked_keys s = Inr (map fst (obj_fields ?u))"
    using u by (auto simp: unlocked_keys_def s js_or_def)
  have fin: "call_filter_done (js_or ?m (JArr [])) = Inr (filter mission_done (arr_elems ?m))"
    using m by (auto simp: js_or_def filter_done_records)
  have rec: "list_all mission_record (filter mission_done (arr_elems ?m))"
    using m by (auto simp: list_all_iff)
  have ver: "js_or ?v (JNum 1) = js_or (case ?v of JUndefined \<Rightarrow> JNum 1 | x \<Rightarrow> x) (JNum 1)"
    using v by (auto simp: js_or_def)
  show ?thesis
    unfolding features_def keys
    by (simp add: s fin map_name_records [OF rec] js_sort_names js_join_strs
                  fingerprint_features_def spec_fingerprint_def ver)
qed

lemma example_valid: "validateGameLogic example_snapshot = Valid"
  by code_simp

lemma example_features:
  "features example_snapshot =
     Inr (JObj
       [(ascii ''unlocked'', JArr [JStr (ascii ''Fire'')]),
        (ascii ''missionProgress'', JStr (ascii ''Fire'')),
        (ascii ''stats'', JObj
           [(ascii ''unlockedCount'', JNum 1),
            (ascii ''version'', JNum 1)])])"
  by code_simp

lemma example_unreserved:
  "INTEGRITY_KEY \<notin> fst ` set example_fields" "TIMESTAMP_KEY \<notin> fst ` set example_fields"
  "VERSION_KEY \<notin> fst ` set example_fields"
  by code_simp+

lemma example_info:
  "unlocked_keys example_snapshot = Inr [ascii ''Fire'']"
  "get_prop (js_or (field example_fields (ascii ''history'')) (JArr [])) (ascii ''length'')
     = Inr (JNum 0)"
  "get_prop (js_or (field example_fields (ascii ''missions'')) (JArr [])) (ascii ''length'')
     = Inr (JNum 1)"
  by code_simp+

lemma example_clock:
  "(1762000000000 :: int) = 0
   \<or> (releaseTime \<le> 1762000000000 \<and> 1762000000000 \<le> 1762000000000 + dayInMs)"
  by (simp add: releaseTime_def dayInMs_def)

lemma example_envelope_eq:
  "\<exists>k g. generateDynamicKey example_snapshot = Inr k
     \<and> generateSignature example_snapshot k = Inr g \<and> length g = 44
     \<and> example_envelope =
         JObj (put_prop (put_prop (put_prop example_fields INTEGRITY_KEY (JStr g))
                 TIMESTAMP_KEY (JNum 1762000000000)) VERSION_KEY (JStr (ascii ''1.0'')))
     \<and> secureExport 1762000000000 example_snapshot =
         ExportSuccess example_envelope \<lparr>elements = 1, history = JNum 0, missions = JNum 1\<rparr>"
proof -
  from sign_total [OF example_features] obtain k g where
    kg: "generateDynamicKey example_snapshot = Inr k"
    "generateSignature example_snapshot k = Inr g" "length g = 44" by blast
  have o: "own_props example_snapshot = example_fields" by (simp add: example_snapshot_def)
  have h: "get_prop example_snapshot (ascii ''history'')
             = Inr (field example_fields (ascii ''history''))"
   and m: "get_prop example_snapshot (ascii ''missions'')
             = Inr (field example_fields (ascii ''missions''))"
    by (simp_all add: example_snapshot_def)
  have "secureExport 1762000000000 example_snapshot =
     ExportSuccess
       (JObj (put_prop (put_prop (put_prop example_fields INTEGRITY_KEY (JStr g))
                 TIMESTAMP_KEY (JNum 1762000000000)) VERSION_KEY (JStr (ascii ''1.0''))))
       \<lparr>elements = 1, history = JNum 0, missions = JNum 1\<rparr>"
    by (simp add: secureExport_def secureExport_try_def example_valid kg h m example_info o)
  with kg show ?thesis
    by (auto simp: example_envelope_def exported_data_def)
qed

lemma example_import_after_gates:
  assumes "get_prop env' INTEGRITY_KEY = get_prop example_envelope INTEGRITY_KEY"
    and "get_prop env' TIMESTAMP_KEY = Inr ts"
    and "\<not> truthy ts \<or> timestamp_abnormal now ts = Inr False"
  shows "\<exists>g. bindE (generateDynamicKey example_snapshot) (generateSignature example_snapshot)
               = Inr g
     \<and> secureImport now env' =
     (let s = rest_props [INTEGRITY_KEY, TIMESTAMP_KEY, VERSION_KEY] env' in
      case validateGameLogic s of
        Invalid r \<Rightarrow> ImportFailure (StructureInvalid r)
      | Valid \<Rightarrow>
         (case bindE (generateDynamicKey s) (generateSignature s) of
            Inl err \<Rightarrow> ImportFailure (ImportError err)
          | Inr x \<Rightarrow>
              if JStr g \<noteq> JStr x then ImportFailure IntegrityFailed
              else ImportSuccess s
                     \<lparr>importTime = js_or ts (JNum now),
                      importedElements =
                        (case unlocked_keys s of Inl err \<Rightarrow> 0 | Inr names \<Rightarrow> length names),
                      verified = True\<rparr>))"
proof -
  from example_envelope_eq obtain k g where kg: "generateDynamicKey example_snapshot = Inr k"
    "generateSignature example_snapshot k = Inr g" "length g = 44"
    "example_envelope =
         JObj (put_prop (put_prop (put_prop example_fields INTEGRITY_KEY (JStr g))
                 TIMESTAMP_KEY (JNum 1762000000000)) VERSION_KEY (JStr (ascii ''1.0'')))" by blast
  have sg: "get_prop env' INTEGRITY_KEY = Inr (JStr g)"
    unfolding assms(1) kg(4) by (simp add: field_envelope)
  have tr: "truthy (JStr g)" using kg(3) by auto
  have "bindE (generateDynamicKey example_snapshot) (generateSignature example_snapshot) = Inr g"
    using kg by simp
  then show ?thesis
    using import_gates_passed [OF sg tr assms(2,3)] by blast
qed

lemma example_envelope_reserved:
  "\<exists>g. length g = 44 \<and> get_prop example_envelope INTEGRITY_KEY = Inr (JStr g)"
  "get_prop example_envelope TIMESTAMP_KEY = Inr (JNum 1762000000000)"
  "rest_props [INTEGRITY_KEY, TIMESTAMP_KEY, VERSION_KEY] example_envelope = example_snapshot"
proof -
  from example_envelope_eq obtain g where g: "length g = 44" and env:
    "example_envelope =
         JObj (put_prop (put_prop (put_prop example_fields INTEGRITY_KEY (JStr g))
                 TIMESTAMP_KEY (JNum 1762000000000)) VERSION_KEY (JStr (ascii ''1.0'')))" by blast
  show "\<exists>g. length g = 44 \<and> get_prop example_envelope INTEGRITY_KEY = Inr (JStr g)"
    using g by (simp add: env field_envelope)
  show "get_prop example_envelope TIMESTAMP_KEY = Inr (JNum 1762000000000)"
    by (simp add: env field_envelope)
  show "rest_props [INTEGRITY_KEY, TIMESTAMP_KEY, VERSION_KEY] example_envelope = example_snapshot"
    unfolding env example_snapshot_def by (rule rest_props_envelope) (rule example_unreserved)+
qed

lemma example_round_trip:
  "secureImport 1762000000000 example_envelope =
     ImportSuccess example_snapshot
       \<lparr>importTime = JNum 1762000000000, importedElements = 1, verified = True\<rparr>"
proof -
  have ex: "secureExport 1762000000000 example_snapshot =
     ExportSuccess example_envelope \<lparr>elements = 1, history = JNum 0, missions = JNum 1\<rparr>"
    using example_envelope_eq by blast
  from round_trip_aux [OF example_valid [unfolded example_snapshot_def]
      example_features [unfolded example_snapshot_def] example_unreserved example_clock]
  show ?thesis using ex by (auto simp: example_snapshot_def)
qed

text \<open>
  The envelope of the example with one member \<open>k\<close> set to \<open>v\<close>, where \<open>k\<close> is not a
  reserved name: what the importer extracts from it.
\<close>

lemma example_modified:
  assumes "k \<noteq> INTEGRITY_KEY" "k \<noteq> TIMESTAMP_KEY" "k \<noteq> VERSION_KEY"
  shows "get_prop (JObj (put_prop (own_props example_envelope) k v)) INTEGRITY_KEY
           = get_prop example_envelope INTEGRITY_KEY"
    and "get_prop (JObj (put_prop (own_props example_envelope) k v)) TIMESTAMP_KEY
           = get_prop example_envelope TIMESTAMP_KEY"
    and "rest_props [INTEGRITY_KEY, TIMESTAMP_KEY, VERSION_KEY]
           (JObj (put_prop (own_props example_envelope) k v))
           = JObj (put_prop example_fields k v)"
proof -
  from example_envelope_eq obtain g where env:
    "example_envelope =
         JObj (put_prop (put_prop (put_prop example_fields INTEGRITY_KEY (JStr g))
                 TIMESTAMP_KEY (JNum 1762000000000)) VERSION_KEY (JStr (ascii ''1.0'')))" by blast
  show "get_prop (JObj (put_prop (own_props example_envelope) k v)) INTEGRITY_KEY
           = get_prop example_envelope INTEGRITY_KEY"
    using assms by (simp add: env field_put_prop)
  show "get_prop (JObj (put_prop (own_props example_envelope) k v)) TIMESTAMP_KEY
           = get_prop example_envelope TIMESTAMP_KEY"
    using assms by (simp add: env field_put_prop)
  show "rest_props [INTEGRITY_KEY, TIMESTAMP_KEY, VERSION_KEY]
           (JObj (put_prop (own_props example_envelope) k v))
           = JObj (put_prop example_fields k v)"
    using rest_props_put [OF assms] rest_props_envelope [OF example_unreserved]
    by (simp add: env)
qed

subsection \<open>Auxiliary facts: the store\<close>

text \<open>
  In the store model a sort is visible to whoever shares the array: sorting the member
  \<open>missions\<close> itself would reorder the input.
\<close>

lemma sort_of_member_visible:
  "input (snd (sortS (Member (ascii ''missions''))
     \<lparr>input = JObj [(ascii ''missions'', JArr [JStr (ascii ''b''), JStr (ascii ''a'')])],
      fresh = []\<rparr>))
   = JObj [(ascii ''missions'', JArr [JStr (ascii ''a''), JStr (ascii ''b'')])]"
  by code_simp

text \<open>
  Each computation of the importer returns what its counterpart without a store returns,
  and leaves the store it started from with some arrays allocated.
\<close>

lemma ext_simps [simp]:
  "input (ext st zs) = input st"
  "fresh (ext st zs) = fresh st @ zs"
  "gameData_of (ext st zs) = gameData_of st"
  "ext (ext st as) bs = ext st (as @ bs)"
  "ext st [] = st"
  unfolding ext_def gameData_of_def by simp_all

lemma bindS_Inl: "m st = (Inl e, st') \<Longrightarrow> bindS m f st = (Inl e, st')"
  unfolding bindS_def by simp

lemma bindS_Inr: "m st = (Inr x, st') \<Longrightarrow> bindS m f st = f x st'"
  unfolding bindS_def by simp

lemma alloc_ext: "alloc xs st = (Inr (Fresh (length (fresh st))), ext st [xs])"
  unfolding alloc_def ext_def by simp

lemma deref_last: "deref (ext st [xs]) (Fresh (length (fresh st))) = xs"
  unfolding deref_def by simp

lemma assign_last: "assign (Fresh (length (fresh st))) ys (ext st [xs]) = ext st [ys]"
  unfolding assign_def ext_def by simp

lemma sortS_last:
  "sortS (Fresh (length (fresh st))) (ext st [xs]) =
     (case js_sort xs of
        Inl e \<Rightarrow> (Inl e, ext st [xs])
      | Inr ys \<Rightarrow> (Inr (Fresh (length (fresh st))), ext st [ys]))"
  unfolding sortS_def deref_last assign_last by (rule refl)

lemma filterDoneS_run:
  "filterDoneS r st =
     (case filter_done (deref st r) of
        Inl e \<Rightarrow> (Inl e, st)
      | Inr ys \<Rightarrow> (Inr (Fresh (length (fresh st))), ext st [ys]))"
  unfolding filterDoneS_def bindS_def readS_def by (simp add: alloc_ext split: sum.splits)

lemma mapNameS_run:
  "mapNameS r st =
     (case map_name (deref st r) of
        Inl e \<Rightarrow> (Inl e, st)
      | Inr ys \<Rightarrow> (Inr (Fresh (length (fresh st))), ext st [ys]))"
  unfolding mapNameS_def bindS_def readS_def by (simp add: alloc_ext split: sum.splits)

lemma keysS_run:
  "keysS v st =
     (case objectKeys v of
        Inl e \<Rightarrow> (Inl e, st)
      | Inr ks \<Rightarrow> (Inr (Fresh (length (fresh st))), ext st [map JStr ks]))"
  unfolding keysS_def bindS_def liftS_def by (simp add: alloc_ext split: sum.splits)


lemma bindS_assoc: "bindS (bindS m f) g = bindS m (\<lambda>x. bindS (f x) g)"
  by (rule ext) (simp add: bindS_def split: prod.splits sum.splits)

lemma unlockedKeysS_run:
  "unlockedKeysS st =
     (case unlocked_keys (gameData_of st) of
        Inl e \<Rightarrow> (Inl e, st)
      | Inr ks \<Rightarrow> (Inr (Fresh (length (fresh st))), ext st [map JStr ks]))"
proof (cases "get_prop (gameData_of st) (ascii ''unlocked'')")
  case (Inl e)
  then show ?thesis
    unfolding unlockedKeysS_def unlocked_keys_def bindS_def readS_def by simp
next
  case (Inr u)
  then show ?thesis
    unfolding unlockedKeysS_def unlocked_keys_def bindS_def readS_def keysS_run by simp
qed

lemma sortedKeysS_run:
  "bindS unlockedKeysS sortS st =
     (case unlocked_keys (gameData_of st) of
        Inl e \<Rightarrow> (Inl e, st)
      | Inr ks \<Rightarrow> (Inr (Fresh (length (fresh st))), ext st [map JStr (sort ks)]))"
proof (cases "unlocked_keys (gameData_of st)")
  case (Inl e)
  then have "unlockedKeysS st = (Inl e, st)"
    by (simp add: unlockedKeysS_run)
  then show ?thesis
    using Inl by (simp add: bindS_Inl)
next
  case (Inr ks)
  then have "unlockedKeysS st = (Inr (Fresh (length (fresh st))), ext st [map JStr ks])"
    by (simp add: unlockedKeysS_run)
  then have "bindS unlockedKeysS sortS st
               = sortS (Fresh (length (fresh st))) (ext st [map JStr ks])"
    by (rule bindS_Inr)
  then show ?thesis
    using Inr by (simp add: sortS_last js_sort_strs)
qed

lemma chain_run:
  "\<exists>zs. bindS (bindS (bindS (filterDoneS r) mapNameS) sortS) (joinS sep) st =
     (bindE (filter_done (deref st r)) (\<lambda>finished.
        bindE (map_name finished) (\<lambda>ns.
        bindE (js_sort ns) (\<lambda>sorted. js_join sep sorted))), ext st zs)"
proof (cases "filter_done (deref st r)")
  case (Inl e)
  then have "filterDoneS r st = (Inl e, ext st [])"
    by (simp add: filterDoneS_run)
  then have "bindS (bindS (bindS (filterDoneS r) mapNameS) sortS) (joinS sep) st
               = (Inl e, ext st [])"
    by (simp only: bindS_Inl)
  then show ?thesis
    using Inl by (simp only: bindE_simps) blast
next
  case f: (Inr finished)
  define st1 where "st1 = ext st [finished]"
  have s1: "filterDoneS r st = (Inr (Fresh (length (fresh st))), st1)"
    using f by (simp add: filterDoneS_run st1_def)
  have d1: "deref st1 (Fresh (length (fresh st))) = finished"
    unfolding st1_def by (rule deref_last)
  show ?thesis
  proof (cases "map_name finished")
    case (Inl e)
    then have "mapNameS (Fresh (length (fresh st))) st1 = (Inl e, st1)"
      by (simp add: mapNameS_run d1)
    with s1 have "bindS (filterDoneS r) mapNameS st = (Inl e, st1)"
      by (simp only: bindS_Inr)
    then have "bindS (bindS (bindS (filterDoneS r) mapNameS) sortS) (joinS sep) st
                 = (Inl e, ext st [finished])"
      by (simp only: bindS_Inl st1_def)
    then show ?thesis
      using f Inl by (simp only: bindE_simps) blast
  next
    case n: (Inr ns)
    then have "mapNameS (Fresh (length (fresh st))) st1
                 = (Inr (Fresh (length (fresh st1))), ext st1 [ns])"
      by (simp add: mapNameS_run d1)
    with s1 have s2: "bindS (filterDoneS r) mapNameS st
                 = (Inr (Fresh (length (fresh st1))), ext st1 [ns])"
      by (simp only: bindS_Inr)
    show ?thesis
    proof (cases "js_sort ns")
      case (Inl e)
      then have "sortS (Fresh (length (fresh st1))) (ext st1 [ns]) = (Inl e, ext st1 [ns])"
        by (simp add: sortS_last)
      with s2 have "bindS (bindS (filterDoneS r) mapNameS) sortS st = (Inl e, ext st1 [ns])"
        by (simp only: bindS_Inr)
      then have "bindS (bindS (bindS (filterDoneS r) mapNameS) sortS) (joinS sep) st
                   = (Inl e, ext st [finished, ns])"
        by (simp only: bindS_Inl) (simp add: st1_def)
      then show ?thesis
        using f n Inl by (simp only: bindE_simps) blast
    next
      case (Inr sorted)
      then have "sortS (Fresh (length (fresh st1))) (ext st1 [ns])
                   = (Inr (Fresh (length (fresh st1))), ext st1 [sorted])"
        by (simp add: sortS_last)
      with s2 have "bindS (bindS (filterDoneS r) mapNameS) sortS st
                   = (Inr (Fresh (length (fresh st1))), ext st1 [sorted])"
        by (simp only: bindS_Inr)
      then have "bindS (bindS (bindS (filterDoneS r) mapNameS) sortS) (joinS sep) st
                   = joinS sep (Fresh (length (fresh st1))) (ext st1 [sorted])"
        by (rule bindS_Inr)
      also have "\<dots> = (js_join sep sorted, ext st [finished, sorted])"
        unfolding joinS_def readS_def deref_last by (simp add: st1_def)
      finally show ?thesis
        using f n Inr by (simp only: bindE_simps) blast
    qed
  qed
qed


lemma gameData_object: "\<exists>kvs. gameData_of st = JObj kvs"
  unfolding gameData_of_def rest_props_def by blast

lemma bindE_assoc: "bindE (bindE m f) g = bindE m (\<lambda>x. bindE (f x) g)"
  by (cases m) simp_all

lemma progressS_run:
  "\<exists>zs. progressS st =
     (bindE (get_prop (gameData_of st) (ascii ''missions'')) (\<lambda>ms.
        bindE (call_filter_done (js_or ms (JArr []))) (\<lambda>finished.
        bindE (map_name finished) (\<lambda>ns.
        bindE (js_sort ns) (\<lambda>sorted. js_join (ascii '','') sorted)))), ext st zs)"
proof -
  let ?p = "ascii ''missions''"
  let ?chain = "\<lambda>r. bindS (bindS (bindS (filterDoneS r) mapNameS) sortS) (joinS (ascii '',''))"
  let ?pure = "\<lambda>xs. bindE (filter_done xs) (\<lambda>finished.
        bindE (map_name finished) (\<lambda>ns.
        bindE (js_sort ns) (\<lambda>sorted. js_join (ascii '','') sorted)))"
  obtain kvs where gd: "gameData_of st = JObj kvs"
    using gameData_object by blast
  define ms where "ms = field kvs ?p"
  have g: "get_prop (gameData_of st) ?p = Inr ms"
    unfolding gd ms_def by simp
  have m: "member_or_empty ?p st = (if truthy ms then receiver ?p ms st else alloc [] st)"
    unfolding member_or_empty_def bindS_def readS_def g by simp
  have p: "progressS st = bindS (member_or_empty ?p) ?chain st"
    unfolding progressS_def by (simp only: bindS_assoc)
  show ?thesis
  proof (cases "truthy ms")
    case False
    then have "member_or_empty ?p st = (Inr (Fresh (length (fresh st))), ext st [[]])"
      using m by (simp add: alloc_ext)
    then have q: "progressS st = ?chain (Fresh (length (fresh st))) (ext st [[]])"
      unfolding p by (rule bindS_Inr)
    obtain zs where
      "?chain (Fresh (length (fresh st))) (ext st [[]])
         = (?pure (deref (ext st [[]]) (Fresh (length (fresh st)))), ext (ext st [[]]) zs)"
      using chain_run [of "Fresh (length (fresh st))" "ascii '',''" "ext st [[]]"] by blast
    then have "progressS st = (?pure [], ext st ([[]] @ zs))"
      unfolding q deref_last by simp
    moreover have "call_filter_done (js_or ms (JArr [])) = filter_done []"
      using False by (simp add: js_or_def)
    ultimately show ?thesis
      unfolding g bindE_simps by (simp only:) blast
  next
    case True
    then have o: "js_or ms (JArr []) = ms"
      by (simp add: js_or_def)
    show ?thesis
    proof (cases "isArray ms")
      case False
      have "receiver ?p ms st = (Inl NotCallable, st) \<and> call_filter_done ms = Inl NotCallable"
        using True False by (cases ms) (simp_all add: liftS_def)
      then have "member_or_empty ?p st = (Inl NotCallable, ext st [])"
        and c: "call_filter_done ms = Inl NotCallable"
        using m True by simp_all
      then have "progressS st = (Inl NotCallable, ext st [])"
        unfolding p by (simp only: bindS_Inl)
      then show ?thesis
        unfolding g bindE_simps o c by (simp only: bindE_simps) blast
    next
      case a: True
      then obtain xs where xs: "ms = JArr xs"
        by (cases ms) simp_all
      then have "member_or_empty ?p st = (Inr (Member ?p), st)"
        using m True by (simp add: liftS_def)
      then have q: "progressS st = ?chain (Member ?p) st"
        unfolding p by (rule bindS_Inr)
      have d: "deref st (Member ?p) = xs"
        unfolding deref_def gd using xs ms_def by simp
      obtain zs where "?chain (Member ?p) st = (?pure (deref st (Member ?p)), ext st zs)"
        using chain_run [of "Member ?p" "ascii '',''" st] by blast
      then have "progressS st = (?pure xs, ext st zs)"
        unfolding q d by simp
      moreover have "call_filter_done ms = filter_done xs"
        using xs by simp
      ultimately show ?thesis
        unfolding g bindE_simps o by (simp only:) blast
    qed
  qed
qed


lemma features_progress:
  "features s =
     bindE (unlocked_keys s) (\<lambda>names.
     bindE (bindE (get_prop s (ascii ''missions'')) (\<lambda>ms.
              bindE (call_filter_done (js_or ms (JArr []))) (\<lambda>finished.
              bindE (map_name finished) (\<lambda>ns.
              bindE (js_sort ns) (\<lambda>sorted. js_join (ascii '','') sorted)))))
       (\<lambda>missionProgress.
     bindE (unlocked_keys s) (\<lambda>names'.
     bindE (get_prop s (ascii ''version'')) (\<lambda>version.
       Inr (JObj
         [(ascii ''unlocked'', JArr (map JStr (sort names))),
          (ascii ''missionProgress'', JStr missionProgress),
          (ascii ''stats'', JObj
             [(ascii ''unlockedCount'', JNum (int (length names'))),
              (ascii ''version'', js_or version (JNum 1))])])))))"
  unfolding features_def bindE_assoc by (rule refl)

lemma deref_first:
  "deref (ext st (x # zs)) (Fresh (length (fresh st))) = x"
  unfolding deref_def by simp

lemma featuresS_run: "\<exists>zs. featuresS st = (features (gameData_of st), ext st zs)"
proof (cases "unlocked_keys (gameData_of st)")
  case (Inl e)
  then have "bindS unlockedKeysS sortS st = (Inl e, ext st [])"
    by (simp add: sortedKeysS_run)
  then have "featuresS st = (Inl e, ext st [])"
    unfolding featuresS_def by (rule bindS_Inl)
  moreover have "features (gameData_of st) = Inl e"
    unfolding features_progress Inl by simp
  ultimately show ?thesis
    by (simp only:) blast
next
  case k: (Inr ks)
  let ?n = "length (fresh st)"
  let ?rest = "\<lambda>names.
     bindS progressS (\<lambda>missionProgress.
     bindS unlockedKeysS (\<lambda>names'.
     bindS (readS (\<lambda>st. get_prop (gameData_of st) (ascii ''version''))) (\<lambda>version.
     readS (\<lambda>st.
       Inr (JObj
         [(ascii ''unlocked'', JArr (deref st names)),
          (ascii ''missionProgress'', JStr missionProgress),
          (ascii ''stats'', JObj
             [(ascii ''unlockedCount'', JNum (int (length (deref st names')))),
              (ascii ''version'', js_or version (JNum 1))])])))))"
  define st1 where "st1 = ext st [map JStr (sort ks)]"
  have gd1: "gameData_of st1 = gameData_of st"
    unfolding st1_def by simp
  have "bindS unlockedKeysS sortS st = (Inr (Fresh ?n), st1)"
    using k by (simp add: sortedKeysS_run st1_def)
  then have f: "featuresS st = ?rest (Fresh ?n) st1"
    unfolding featuresS_def by (rule bindS_Inr)
  obtain zs where pr: "progressS st1 =
     (bindE (get_prop (gameData_of st) (ascii ''missions'')) (\<lambda>ms.
        bindE (call_filter_done (js_or ms (JArr []))) (\<lambda>finished.
        bindE (map_name finished) (\<lambda>ns.
        bindE (js_sort ns) (\<lambda>sorted. js_join (ascii '','') sorted)))), ext st1 zs)"
    using progressS_run [of st1] unfolding gd1 by blast
  show ?thesis
  proof (cases "bindE (get_prop (gameData_of st) (ascii ''missions'')) (\<lambda>ms.
        bindE (call_filter_done (js_or ms (JArr []))) (\<lambda>finished.
        bindE (map_name finished) (\<lambda>ns.
        bindE (js_sort ns) (\<lambda>sorted. js_join (ascii '','') sorted))))")
    case (Inl e)
    then have "progressS st1 = (Inl e, ext st1 zs)"
      using pr by simp
    then have "?rest (Fresh ?n) st1 = (Inl e, ext st1 zs)"
      by (rule bindS_Inl)
    then have "featuresS st = (Inl e, ext st (map JStr (sort ks) # zs))"
      unfolding f st1_def by simp
    moreover have "features (gameData_of st) = Inl e"
      unfolding features_progress k Inl by simp
    ultimately show ?thesis
      by (simp only:) blast
  next
    case mp: (Inr missionProgress)
    define st2 where "st2 = ext st1 zs"
    define st3 where "st3 = ext st2 [map JStr ks]"
    have gd2: "gameData_of st2 = gameData_of st"
      unfolding st2_def st1_def by simp
    have st3: "st3 = ext st (map JStr (sort ks) # zs @ [map JStr ks])"
      unfolding st3_def st2_def st1_def by simp
    obtain kvs where gd: "gameData_of st = JObj kvs"
      using gameData_object by blast
    have v: "get_prop (gameData_of st3) (ascii ''version'') = Inr (field kvs (ascii ''version''))"
      unfolding st3 using gd by simp
    have "progressS st1 = (Inr missionProgress, st2)"
      using pr mp by (simp add: st2_def)
    then have "?rest (Fresh ?n) st1 =
       bindS unlockedKeysS (\<lambda>names'.
       bindS (readS (\<lambda>st. get_prop (gameData_of st) (ascii ''version''))) (\<lambda>version.
       readS (\<lambda>st.
         Inr (JObj
           [(ascii ''unlocked'', JArr (deref st (Fresh ?n))),
            (ascii ''missionProgress'', JStr missionProgress),
            (ascii ''stats'', JObj
               [(ascii ''unlockedCount'', JNum (int (length (deref st names')))),
                (ascii ''version'', js_or version (JNum 1))])])))) st2"
      by (rule bindS_Inr)
    moreover have "unlockedKeysS st2 = (Inr (Fresh (length (fresh st2))), st3)"
      unfolding unlockedKeysS_run gd2 k st3_def by simp
    ultimately have "?rest (Fresh ?n) st1 =
       bindS (readS (\<lambda>st. get_prop (gameData_of st) (ascii ''version''))) (\<lambda>version.
       readS (\<lambda>st.
         Inr (JObj
           [(ascii ''unlocked'', JArr (deref st (Fresh ?n))),
            (ascii ''missionProgress'', JStr missionProgress),
            (ascii ''stats'', JObj
               [(ascii ''unlockedCount'',
                   JNum (int (length (deref st (Fresh (length (fresh st2))))))),
                (ascii ''version'', js_or version (JNum 1))])]))) st3"
      by (simp only: bindS_Inr)
    also have "\<dots> =
       (Inr (JObj
           [(ascii ''unlocked'', JArr (deref st3 (Fresh ?n))),
            (ascii ''missionProgress'', JStr missionProgress),
            (ascii ''stats'', JObj
               [(ascii ''unlockedCount'',
                   JNum (int (length (deref st3 (Fresh (length (fresh st2))))))),
                (ascii ''version'', js_or (field kvs (ascii ''version'')) (JNum 1))])]), st3)"
      unfolding bindS_def readS_def v by simp
    also have "deref st3 (Fresh ?n) = map JStr (sort ks)"
      unfolding st3 by (rule deref_first)
    also have "deref st3 (Fresh (length (fresh st2))) = map JStr ks"
      unfolding st3_def by (rule deref_last)
    finally have "featuresS st =
       (Inr (JObj
           [(ascii ''unlocked'', JArr (map JStr (sort ks))),
            (ascii ''missionProgress'', JStr missionProgress),
            (ascii ''stats'', JObj
               [(ascii ''unlockedCount'', JNum (int (length ks))),
                (ascii ''version'', js_or (field kvs (ascii ''version'')) (JNum 1))])]),
        ext st (map JStr (sort ks) # zs @ [map JStr ks]))"
      unfolding f st3 by simp
    moreover have "features (gameData_of st) =
       Inr (JObj
           [(ascii ''unlocked'', JArr (map JStr (sort ks))),
            (ascii ''missionProgress'', JStr missionProgress),
            (ascii ''stats'', JObj
               [(ascii ''unlockedCount'', JNum (int (length ks))),
                (ascii ''version'', js_or (field kvs (ascii ''version'')) (JNum 1))])])"
      unfolding features_progress k mp bindE_simps unfolding gd by simp
    ultimately show ?thesis
      by (simp only:) blast
  qed
qed


lemma generateDynamicKeyS_run:
  "\<exists>zs. generateDynamicKeyS st = (generateDynamicKey (gameData_of st), ext st zs)"
proof -
  obtain zs where f: "featuresS st = (features (gameData_of st), ext st zs)"
    using featuresS_run by blast
  show ?thesis
  proof (cases "features (gameData_of st)")
    case (Inl e)
    then have "generateDynamicKeyS st = (Inl e, ext st zs)"
      unfolding generateDynamicKeyS_def using f by (simp add: bindS_Inl)
    then show ?thesis
      unfolding generateDynamicKey_def Inl by (simp only: bindE_simps) blast
  next
    case (Inr fs)
    then have "featuresS st = (Inr fs, ext st zs)"
      using f by simp
    then have "generateDynamicKeyS st =
        (bindE (btoa (fromCharCode (sha256 (encode (stringify fs))))) (\<lambda>b. Inr (take 32 b)),
         ext st zs)"
      unfolding generateDynamicKeyS_def by (simp add: bindS_Inr Let_def liftS_def)
    then show ?thesis
      unfolding generateDynamicKey_def Inr by (simp only: bindE_simps Let_def) blast
  qed
qed

lemma replacer_names_strs: "replacer_names (map JStr ks) = ks"
  by (induction ks) simp_all

lemma generateSignatureS_run:
  "\<exists>zs. generateSignatureS k st = (generateSignature (gameData_of st) k, ext st zs)"
proof -
  obtain kvs where gd: "gameData_of st = JObj kvs"
    using gameData_object by blast
  define ks where "ks = map fst kvs"
  define st1 where "st1 = ext st [map JStr (sort ks)]"
  have o: "objectKeys (gameData_of st) = Inr ks"
    unfolding gd ks_def by simp
  have "bindS (readS (\<lambda>st. Inr (gameData_of st))) keysS st
          = (Inr (Fresh (length (fresh st))), ext st [map JStr ks])"
    by (simp add: bindS_def readS_def keysS_run o)
  then have "bindS (bindS (readS (\<lambda>st. Inr (gameData_of st))) keysS) sortS st
          = sortS (Fresh (length (fresh st))) (ext st [map JStr ks])"
    by (rule bindS_Inr)
  also have "\<dots> = (Inr (Fresh (length (fresh st))), st1)"
    unfolding sortS_last js_sort_strs st1_def by simp
  finally have "generateSignatureS k st =
      (let normalizedData = stringify_keys (gameData_of st1)
                              (replacer_names (deref st1 (Fresh (length (fresh st)))));
           dataBuffer = encode normalizedData;
           keyBuffer = encode k
       in if keyBuffer = [] then Inl EmptyKeyData
          else btoa (fromCharCode (hmac_sha256 keyBuffer dataBuffer)), st1)"
    unfolding generateSignatureS_def by (simp add: bindS_Inr readS_def)
  moreover have "deref st1 (Fresh (length (fresh st))) = map JStr (sort ks)"
    unfolding st1_def by (rule deref_last)
  moreover have "gameData_of st1 = gameData_of st"
    unfolding st1_def by simp
  ultimately have "generateSignatureS k st = (generateSignature (gameData_of st) k, st1)"
    unfolding generateSignature_def o by (simp add: replacer_names_strs)
  then show ?thesis
    unfolding st1_def by blast
qed

lemma verifyS_run:
  "\<exists>zs.
     bindS generateDynamicKeyS (\<lambda>expectedKey.
     bindS (generateSignatureS expectedKey) (\<lambda>expectedSignature.
       if signature \<noteq> JStr expectedSignature
       then liftS (Inr (ImportFailure IntegrityFailed))
       else
         bindS unlockedKeysS (\<lambda>names.
           readS (\<lambda>st.
             Inr (ImportSuccess (gameData_of st)
               \<lparr>importTime = t,
                importedElements = length (deref st names),
                verified = True\<rparr>))))) st =
     (bindE (generateDynamicKey (gameData_of st)) (\<lambda>expectedKey.
      bindE (generateSignature (gameData_of st) expectedKey) (\<lambda>expectedSignature.
        if signature \<noteq> JStr expectedSignature
        then Inr (ImportFailure IntegrityFailed)
        else
          bindE (unlocked_keys (gameData_of st)) (\<lambda>names.
            Inr (ImportSuccess (gameData_of st)
              \<lparr>importTime = t,
               importedElements = length names,
               verified = True\<rparr>)))), ext st zs)"
  (is "\<exists>zs. bindS generateDynamicKeyS ?k st = (?pure, ext st zs)")
proof -
  obtain zs1 where k: "generateDynamicKeyS st = (generateDynamicKey (gameData_of st), ext st zs1)"
    using generateDynamicKeyS_run by blast
  show ?thesis
  proof (cases "generateDynamicKey (gameData_of st)")
    case (Inl e)
    then have "bindS generateDynamicKeyS ?k st = (Inl e, ext st zs1)"
      using k by (simp add: bindS_Inl)
    moreover have "?pure = Inl e"
      by (simp add: Inl)
    ultimately show ?thesis
      by (simp only:) blast
  next
    case key: (Inr expectedKey)
    define st1 where "st1 = ext st zs1"
    have gd1: "gameData_of st1 = gameData_of st"
      unfolding st1_def by simp
    have "generateDynamicKeyS st = (Inr expectedKey, st1)"
      using k key by (simp add: st1_def)
    then have r1: "bindS generateDynamicKeyS ?k st = ?k expectedKey st1"
      by (rule bindS_Inr)
    obtain zs2 where s: "generateSignatureS expectedKey st1
        = (generateSignature (gameData_of st) expectedKey, ext st1 zs2)"
      using generateSignatureS_run [of expectedKey st1] unfolding gd1 by blast
    show ?thesis
    proof (cases "generateSignature (gameData_of st) expectedKey")
      case (Inl e)
      then have "?k expectedKey st1 = (Inl e, ext st1 zs2)"
        using s by (simp add: bindS_Inl)
      then have "bindS generateDynamicKeyS ?k st = (Inl e, ext st (zs1 @ zs2))"
        unfolding r1 st1_def by simp
      moreover have "?pure = Inl e"
        by (simp add: key Inl)
      ultimately show ?thesis
        by (simp only:) blast
    next
      case sg: (Inr expectedSignature)
      define st2 where "st2 = ext st1 zs2"
      have gd2: "gameData_of st2 = gameData_of st"
        unfolding st2_def st1_def by simp
      have st2: "st2 = ext st (zs1 @ zs2)"
        unfolding st2_def st1_def by simp
      have "generateSignatureS expectedKey st1 = (Inr expectedSignature, st2)"
        using s sg by (simp add: st2_def)
      then have r2: "?k expectedKey st1 =
         (if signature \<noteq> JStr expectedSignature
          then liftS (Inr (ImportFailure IntegrityFailed))
          else
            bindS unlockedKeysS (\<lambda>names.
              readS (\<lambda>st.
                Inr (ImportSuccess (gameData_of st)
                  \<lparr>importTime = t,
                   importedElements = length (deref st names),
                   verified = True\<rparr>)))) st2"
        by (rule bindS_Inr)
      show ?thesis
      proof (cases "signature = JStr expectedSignature")
        case False
        then have "bindS generateDynamicKeyS ?k st
                     = (Inr (ImportFailure IntegrityFailed), ext st (zs1 @ zs2))"
          unfolding r1 r2 st2 by (simp add: liftS_def)
        moreover have "?pure = Inr (ImportFailure IntegrityFailed)"
          using False by (simp add: key sg)
        ultimately show ?thesis
          by (simp only:) blast
      next
        case True
        show ?thesis
        proof (cases "unlocked_keys (gameData_of st)")
          case (Inl e)
          then have "unlockedKeysS st2 = (Inl e, st2)"
            unfolding unlockedKeysS_run gd2 by simp
          then have "bindS generateDynamicKeyS ?k st = (Inl e, ext st (zs1 @ zs2))"
            unfolding r1 r2 using True by (simp add: bindS_Inl st2)
          moreover have "?pure = Inl e"
            using True by (simp add: key sg Inl)
          ultimately show ?thesis
            by (simp only:) blast
        next
          case (Inr names)
          define st3 where "st3 = ext st2 [map JStr names]"
          have "unlockedKeysS st2 = (Inr (Fresh (length (fresh st2))), st3)"
            unfolding unlockedKeysS_run gd2 Inr st3_def by simp
          moreover have "deref st3 (Fresh (length (fresh st2))) = map JStr names"
            unfolding st3_def by (rule deref_last)
          moreover have "gameData_of st3 = gameData_of st"
            unfolding st3_def st2 by simp
          ultimately have "bindS generateDynamicKeyS ?k st =
              (Inr (ImportSuccess (gameData_of st)
                 \<lparr>importTime = t, importedElements = length names, verified = True\<rparr>), st3)"
            unfolding r1 r2 using True by (simp add: bindS_Inr readS_def)
          moreover have "st3 = ext st (zs1 @ zs2 @ [map JStr names])"
            unfolding st3_def st2 by simp
          moreover have "?pure = Inr (ImportSuccess (gameData_of st)
                 \<lparr>importTime = t, importedElements = length names, verified = True\<rparr>)"
            using True by (simp add: key sg Inr)
          ultimately show ?thesis
            by (simp only:) blast
        qed
      qed
    qed
  qed
qed


lemma secureImportS_try_run:
  "\<exists>zs. secureImportS_try now st = (secureImport_try now (input st), ext st zs)"
proof (cases "get_prop (input st) INTEGRITY_KEY")
  case (Inl e)
  then have "secureImportS_try now st = (Inl e, ext st [])"
    unfolding secureImportS_try_def by (simp add: bindS_def readS_def)
  moreover have "secureImport_try now (input st) = Inl e"
    unfolding secureImport_try_def Inl by simp
  ultimately show ?thesis
    by (simp only:) blast
next
  case sg: (Inr signature)
  then have ne: "input st \<noteq> JUndefined" "input st \<noteq> JNull"
    by auto
  obtain timestamp where ts: "get_prop (input st) TIMESTAMP_KEY = Inr timestamp"
    using get_prop_total [OF ne] by blast
  obtain sfVersion where ve: "get_prop (input st) VERSION_KEY = Inr sfVersion"
    using get_prop_total [OF ne] by blast
  let ?gate = "if truthy timestamp then timestamp_abnormal now timestamp else Inr False"
  show ?thesis
  proof (cases "truthy signature")
    case False
    then have "secureImportS_try now st = (Inr (ImportFailure NotSecureFormat), ext st [])"
      unfolding secureImportS_try_def by (simp add: bindS_def readS_def liftS_def sg ts ve)
    moreover have "secureImport_try now (input st) = Inr (ImportFailure NotSecureFormat)"
      unfolding secureImport_try_def sg ts ve using False by simp
    ultimately show ?thesis
      by (simp only:) blast
  next
    case tr: True
    show ?thesis
    proof (cases ?gate)
      case (Inl e)
      then have "secureImportS_try now st = (Inl e, ext st [])"
        unfolding secureImportS_try_def using tr
        by (simp add: bindS_def readS_def liftS_def sg ts ve)
      moreover have "secureImport_try now (input st) = Inl e"
        unfolding secureImport_try_def sg ts ve using tr Inl by simp
      ultimately show ?thesis
        by (simp only:) blast
    next
      case ab: (Inr abnormal)
      show ?thesis
      proof (cases abnormal)
        case True
        then have "secureImportS_try now st = (Inr (ImportFailure TimestampAbnormal), ext st [])"
          unfolding secureImportS_try_def using tr ab
          by (simp add: bindS_def readS_def liftS_def sg ts ve)
        moreover have "secureImport_try now (input st) = Inr (ImportFailure TimestampAbnormal)"
          unfolding secureImport_try_def sg ts ve using tr ab True by simp
        ultimately show ?thesis
          by (simp only:) blast
      next
        case na: False
        show ?thesis
        proof (cases "validateGameLogic (gameData_of st)")
          case (Invalid r)
          then have "secureImportS_try now st
                       = (Inr (ImportFailure (StructureInvalid r)), ext st [])"
            unfolding secureImportS_try_def using tr ab na
            by (simp add: bindS_def readS_def liftS_def sg ts ve)
          moreover have "secureImport_try now (input st)
                           = Inr (ImportFailure (StructureInvalid r))"
            unfolding secureImport_try_def sg ts ve using tr ab na Invalid
            by (simp add: gameData_of_def)
          ultimately show ?thesis
            by (simp only:) blast
        next
          case Valid
          obtain zs where
            "bindS generateDynamicKeyS (\<lambda>expectedKey.
             bindS (generateSignatureS expectedKey) (\<lambda>expectedSignature.
               if signature \<noteq> JStr expectedSignature
               then liftS (Inr (ImportFailure IntegrityFailed))
               else
                 bindS unlockedKeysS (\<lambda>names.
                   readS (\<lambda>st.
                     Inr (ImportSuccess (gameData_of st)
                       \<lparr>importTime = js_or timestamp (JNum now),
                        importedElements = length (deref st names),
                        verified = True\<rparr>))))) st =
             (bindE (generateDynamicKey (gameData_of st)) (\<lambda>expectedKey.
              bindE (generateSignature (gameData_of st) expectedKey) (\<lambda>expectedSignature.
                if signature \<noteq> JStr expectedSignature
                then Inr (ImportFailure IntegrityFailed)
                else
                  bindE (unlocked_keys (gameData_of st)) (\<lambda>names.
                    Inr (ImportSuccess (gameData_of st)
                      \<lparr>importTime = js_or timestamp (JNum now),
                       importedElements = length names,
                       verified = True\<rparr>)))), ext st zs)"
            using verifyS_run [of signature "js_or timestamp (JNum now)" st] by blast
          then have "secureImportS_try now st =
             (bindE (generateDynamicKey (gameData_of st)) (\<lambda>expectedKey.
              bindE (generateSignature (gameData_of st) expectedKey) (\<lambda>expectedSignature.
                if signature \<noteq> JStr expectedSignature
                then Inr (ImportFailure IntegrityFailed)
                else
                  bindE (unlocked_keys (gameData_of st)) (\<lambda>names.
                    Inr (ImportSuccess (gameData_of st)
                      \<lparr>importTime = js_or timestamp (JNum now),
                       importedElements = length names,
                       verified = True\<rparr>)))), ext st zs)"
            unfolding secureImportS_try_def using tr ab na Valid
            by (simp add: bindS_def readS_def liftS_def sg ts ve)
          moreover have "secureImport_try now (input st) =
             bindE (generateDynamicKey (gameData_of st)) (\<lambda>expectedKey.
              bindE (generateSignature (gameData_of st) expectedKey) (\<lambda>expectedSignature.
                if signature \<noteq> JStr expectedSignature
                then Inr (ImportFailure IntegrityFailed)
                else
                  bindE (unlocked_keys (gameData_of st)) (\<lambda>names.
                    Inr (ImportSuccess (gameData_of st)
                      \<lparr>importTime = js_or timestamp (JNum now),
                       importedElements = length names,
                       verified = True\<rparr>))))"
            using tr ab na Valid
            unfolding secureImport_try_def sg ts ve gameData_of_def Let_def by simp
          ultimately show ?thesis
            by (simp only:) blast
        qed
      qed
    qed
  qed
qed

lemma secureImportS_run:
  "\<exists>zs. secureImportS now st = (secureImport now (input st), ext st zs)"
proof -
  obtain zs where "secureImportS_try now st = (secureImport_try now (input st), ext st zs)"
    using secureImportS_try_run by blast
  then have "secureImportS now st = (secureImport now (input st), ext st zs)"
    unfolding secureImportS_def secureImport_def by (simp split: sum.splits)
  then show ?thesis
    by blast
qed

subsection \<open>Tampering\<close>




text \<open>
  What the signature covers. \<open>generateSignature\<close> passes the sorted top-level names as
  the replacer of \<open>JSON.stringify\<close>, and an array replacer selects properties at every
  depth: a nested object is written with those of its names that are also top-level
  names, which for the display data of an entity, an entry of the history or a mission
  record is none. The key depends on the names of the unlocked entities and of the
  finished missions, their number and the version. Hence a change of the display data
  inside \<open>unlocked\<close> changes neither the key nor the signed text, and the changed
  envelope is imported as verified.
\<close>

lemma display_change_accepted:
  "secureImport 1762000000000
     (JObj (put_prop (own_props example_envelope) (ascii ''unlocked'') repainted_unlocked))
   = ImportSuccess (JObj (put_prop example_fields (ascii ''unlocked'') repainted_unlocked))
       \<lparr>importTime = JNum 1762000000000, importedElements = 1, verified = True\<rparr>"
proof -
  let ?s = "JObj (put_prop example_fields (ascii ''unlocked'') repainted_unlocked)"
  have k: "ascii ''unlocked'' \<noteq> INTEGRITY_KEY" "ascii ''unlocked'' \<noteq> TIMESTAMP_KEY"
    "ascii ''unlocked'' \<noteq> VERSION_KEY" by code_simp+
  note m = example_modified [OF k, of repainted_unlocked]
  have t: "get_prop (JObj (put_prop (own_props example_envelope) (ascii ''unlocked'')
             repainted_unlocked)) TIMESTAMP_KEY = Inr (JNum 1762000000000)"
    using m(2) example_envelope_reserved(2) by simp
  have v: "validateGameLogic ?s = Valid" by code_simp
  have f: "features ?s = features example_snapshot" by code_simp
  have o: "objectKeys ?s = objectKeys example_snapshot" by code_simp
  have n: "stringify_keys ?s (sort (map fst example_fields))
             = stringify_keys example_snapshot (sort (map fst example_fields))" by code_simp
  have u: "unlocked_keys ?s = Inr [ascii ''Fire'']" by code_simp
  have key: "generateDynamicKey ?s = generateDynamicKey example_snapshot"
    by (simp add: generateDynamicKey_features f)
  have sig: "generateSignature ?s x = generateSignature example_snapshot x" for x
    by (rule generateSignature_cong [OF o]) (use n in \<open>simp add: example_snapshot_def\<close>)
  from example_import_after_gates [OF m(1) t gate_clock [OF example_clock]]
  obtain g where
    g: "bindE (generateDynamicKey example_snapshot) (generateSignature example_snapshot) = Inr g"
    and i: "secureImport 1762000000000
       (JObj (put_prop (own_props example_envelope) (ascii ''unlocked'') repainted_unlocked)) =
     (let s = rest_props [INTEGRITY_KEY, TIMESTAMP_KEY, VERSION_KEY]
                (JObj (put_prop (own_props example_envelope) (ascii ''unlocked'')
                   repainted_unlocked)) in
      case validateGameLogic s of
        Invalid r \<Rightarrow> ImportFailure (StructureInvalid r)
      | Valid \<Rightarrow>
         (case bindE (generateDynamicKey s) (generateSignature s) of
            Inl err \<Rightarrow> ImportFailure (ImportError err)
          | Inr x \<Rightarrow>
              if JStr g \<noteq> JStr x then ImportFailure IntegrityFailed
              else ImportSuccess s
                     \<lparr>importTime = js_or (JNum 1762000000000) (JNum 1762000000000),
                      importedElements =
                        (case unlocked_keys s of Inl err \<Rightarrow> 0 | Inr names \<Rightarrow> length names),
                      verified = True\<rparr>))"
    by blast
  have same: "bindE (generateDynamicKey ?s) (generateSignature ?s) = Inr g"
    using g by (simp add: key sig bindE_def split: sum.splits)
  show ?thesis
    unfolding i m(3) by (simp add: v same u js_or_def)
qed

subsection \<open>Round trip\<close>

text \<open>
  C2, as the code has it. Let the snapshot be an object that uses none of the three
  reserved names, that the validator accepts and whose key derivation throws no exception.
  If it is exported at the clock reading \<open>te\<close> and the envelope is imported at the
  clock reading \<open>ti\<close>, where \<open>te\<close> is not before the release boundary and not more than
  one day ahead of \<open>ti\<close> (or \<open>te\<close> is 0, which the gate does not test), then the export
  succeeds and the import succeeds and returns exactly the snapshot, with the number of
  unlocked entities that the export reported.
\<close>

theorem export_import_round_trip:
  assumes "validateGameLogic (JObj kvs) = Valid" and "features (JObj kvs) = Inr f"
    and "INTEGRITY_KEY \<notin> fst ` set kvs" and "TIMESTAMP_KEY \<notin> fst ` set kvs"
    and "VERSION_KEY \<notin> fst ` set kvs"
    and "te = 0 \<or> (releaseTime \<le> te \<and> te \<le> ti + dayInMs)"
  shows "\<exists>env info. secureExport te (JObj kvs) = ExportSuccess env info
           \<and> secureImport ti env =
               ImportSuccess (JObj kvs)
                 \<lparr>importTime = JNum (if te = 0 then ti else te),
                  importedElements = elements info, verified = True\<rparr>"
  using assms by (rule round_trip_aux)

text \<open>The theorem at the example, imported five seconds after the export.\<close>

theorem export_import_round_trip_witness:
  "validateGameLogic (JObj example_fields) = Valid
   \<and> INTEGRITY_KEY \<notin> fst ` set example_fields
   \<and> TIMESTAMP_KEY \<notin> fst ` set example_fields
   \<and> VERSION_KEY \<notin> fst ` set example_fields
   \<and> (\<exists>env info. secureExport 1762000000000 (JObj example_fields) = ExportSuccess env info
         \<and> secureImport 1762000005000 env =
             ImportSuccess (JObj example_fields)
               \<lparr>importTime = JNum 1762000000000,
                importedElements = elements info, verified = True\<rparr>)"
proof -
  have v: "validateGameLogic (JObj example_fields) = Valid"
    using example_valid by (simp add: example_snapshot_def)
  have c: "(1762000000000 :: int) = 0
     \<or> (releaseTime \<le> 1762000000000 \<and> 1762000000000 \<le> 1762000005000 + dayInMs)"
    by (simp add: releaseTime_def dayInMs_def)
  from export_import_round_trip
    [OF v example_features [unfolded example_snapshot_def] example_unreserved c]
  show ?thesis using v example_unreserved by simp
qed

text \<open>
  The claim as stated fails: the validator accepts the example, it is exported at the
  clock reading 1762000000000, and a machine whose clock is two days behind, at
  1761827200000, rejects the unmodified envelope at the timestamp gate.
\<close>

theorem round_trip_clock_counterexample:
  "validateGameLogic example_snapshot = Valid
   \<and> secureImport 1761827200000 example_envelope = ImportFailure TimestampAbnormal"
proof -
  from example_envelope_reserved(1) obtain g where
    g: "length g = 44" "get_prop example_envelope INTEGRITY_KEY = Inr (JStr g)" by blast
  have "truthy (JStr g)" using g(1) by auto
  then have "secureImport 1761827200000 example_envelope = ImportFailure TimestampAbnormal"
    unfolding timestamp_gate_iff [OF g(2) example_envelope_reserved(2)]
    by (simp add: releaseTime_def dayInMs_def)
  with example_valid show ?thesis by simp
qed

subsection \<open>The timestamp gate\<close>

text \<open>
  C3, as the code has it. For an envelope whose timestamp is the number \<open>t\<close>, the import
  fails with the timestamp reason of line 147 exactly when the signature is truthy, \<open>t\<close>
  is not 0, and \<open>t\<close> is before the release boundary 1735689600000 or after the clock
  reading plus one day. So a timestamp of the clock reading plus two days is rejected, a
  timestamp equal to a clock reading that is not before the release boundary passes the
  gate, and the timestamp 0 is never rejected by the gate: line 139 skips the test for a
  falsy timestamp.
\<close>

theorem timestamp_gate:
  assumes "get_prop e INTEGRITY_KEY = Inr sg" and "get_prop e TIMESTAMP_KEY = Inr (JNum t)"
  shows "secureImport now e = ImportFailure TimestampAbnormal \<longleftrightarrow>
         truthy sg \<and> t \<noteq> 0 \<and> (t < releaseTime \<or> now + dayInMs < t)"
  using assms by (rule timestamp_gate_iff)

text \<open>
  The theorem at an envelope stamped two days after the clock reading 1762000000000.
\<close>

theorem timestamp_gate_witness:
  "get_prop (JObj [(INTEGRITY_KEY, JStr (ascii ''x'')), (TIMESTAMP_KEY, JNum 1762172800000)])
       INTEGRITY_KEY = Inr (JStr (ascii ''x''))
   \<and> get_prop (JObj [(INTEGRITY_KEY, JStr (ascii ''x'')), (TIMESTAMP_KEY, JNum 1762172800000)])
       TIMESTAMP_KEY = Inr (JNum 1762172800000)
   \<and> secureImport 1762000000000
       (JObj [(INTEGRITY_KEY, JStr (ascii ''x'')), (TIMESTAMP_KEY, JNum 1762172800000)])
       = ImportFailure TimestampAbnormal"
proof -
  have i: "get_prop (JObj [(INTEGRITY_KEY, JStr (ascii ''x'')),
              (TIMESTAMP_KEY, JNum 1762172800000)]) INTEGRITY_KEY = Inr (JStr (ascii ''x''))"
    by (simp add: field_def)
  have t: "get_prop (JObj [(INTEGRITY_KEY, JStr (ascii ''x'')),
              (TIMESTAMP_KEY, JNum 1762172800000)]) TIMESTAMP_KEY = Inr (JNum 1762172800000)"
    by (simp add: field_def key_names_distinct)
  have "secureImport 1762000000000
       (JObj [(INTEGRITY_KEY, JStr (ascii ''x'')), (TIMESTAMP_KEY, JNum 1762172800000)])
       = ImportFailure TimestampAbnormal"
    unfolding timestamp_gate [OF i t]
    by (simp add: ascii_def releaseTime_def dayInMs_def)
  with i t show ?thesis by blast
qed

text \<open>
  The claim as stated fails: the exported envelope of the example with its timestamp set
  to 0 is not rejected, it is imported as verified. The timestamp is not part of what is
  signed.
\<close>

theorem timestamp_zero_counterexample:
  "secureImport 1762000000000
     (JObj (put_prop (own_props example_envelope) TIMESTAMP_KEY (JNum 0)))
   = ImportSuccess example_snapshot
       \<lparr>importTime = JNum 1762000000000, importedElements = 1, verified = True\<rparr>"
proof -
  let ?e = "JObj (put_prop (own_props example_envelope) TIMESTAMP_KEY (JNum 0))"
  from example_envelope_eq obtain g0 where env:
    "example_envelope =
         JObj (put_prop (put_prop (put_prop example_fields INTEGRITY_KEY (JStr g0))
                 TIMESTAMP_KEY (JNum 1762000000000)) VERSION_KEY (JStr (ascii ''1.0'')))" by blast
  have own: "JObj (own_props example_envelope) = example_envelope" by (simp add: env)
  have i: "get_prop ?e INTEGRITY_KEY = get_prop example_envelope INTEGRITY_KEY"
    by (simp add: env field_put_prop key_names_distinct)
  have t: "get_prop ?e TIMESTAMP_KEY = Inr (JNum 0)"
    by (simp add: field_put_prop)
  have r: "rest_props [INTEGRITY_KEY, TIMESTAMP_KEY, VERSION_KEY] ?e = example_snapshot"
    unfolding rest_props_put_reserved own by (rule example_envelope_reserved(3))
  have gate: "\<not> truthy (JNum 0) \<or> timestamp_abnormal 1762000000000 (JNum 0) = Inr False"
    by simp
  from example_import_after_gates [OF i t gate]
  obtain g where
    g: "bindE (generateDynamicKey example_snapshot) (generateSignature example_snapshot) = Inr g"
    and im: "secureImport 1762000000000 ?e =
     (let s = rest_props [INTEGRITY_KEY, TIMESTAMP_KEY, VERSION_KEY] ?e in
      case validateGameLogic s of
        Invalid r \<Rightarrow> ImportFailure (StructureInvalid r)
      | Valid \<Rightarrow>
         (case bindE (generateDynamicKey s) (generateSignature s) of
            Inl err \<Rightarrow> ImportFailure (ImportError err)
          | Inr x \<Rightarrow>
              if JStr g \<noteq> JStr x then ImportFailure IntegrityFailed
              else ImportSuccess s
                     \<lparr>importTime = js_or (JNum 0) (JNum 1762000000000),
                      importedElements =
                        (case unlocked_keys s of Inl err \<Rightarrow> 0 | Inr names \<Rightarrow> length names),
                      verified = True\<rparr>))"
    by blast
  show ?thesis
    unfolding im r by (simp add: example_valid g example_info js_or_def)
qed

subsection \<open>Key derivation\<close>

text \<open>
  C4. For two snapshots of the data model that have the same fingerprint (the same
  sorted unlocked names, the same sorted names of the missions with \<open>done = true\<close>, the
  same number of unlocked entities and the same version, 1 when absent),
  \<open>generateDynamicKey\<close> returns the same key, namely the first 32 characters of the
  base64 text of the SHA-256 hash of the UTF-8 bytes of the JSON text of the structure
  built from the fingerprint, which is the object \<open>features\<close> of the code.
\<close>

theorem derived_key_of_fingerprint:
  assumes "is_snapshot s1" and "is_snapshot s2"
    and "spec_fingerprint s1 = spec_fingerprint s2"
  shows "generateDynamicKey s1 = generateDynamicKey s2
         \<and> generateDynamicKey s1 =
             Inr (take 32 (base64 (map unat (sha256 (encode (stringify
                    (fingerprint_features (spec_fingerprint s1))))))))
         \<and> features s1 = Inr (fingerprint_features (spec_fingerprint s1))"
  using assms by (simp add: generateDynamicKey_features features_snapshot)

text \<open>
  The theorem at the example and at the example with other display data for its
  unlocked entity.
\<close>

theorem derived_key_of_fingerprint_witness:
  "is_snapshot example_snapshot
   \<and> is_snapshot (JObj (put_prop example_fields (ascii ''unlocked'') repainted_unlocked))
   \<and> spec_fingerprint example_snapshot
       = spec_fingerprint (JObj (put_prop example_fields (ascii ''unlocked'') repainted_unlocked))
   \<and> generateDynamicKey example_snapshot
       = generateDynamicKey (JObj (put_prop example_fields (ascii ''unlocked'') repainted_unlocked))
   \<and> features example_snapshot
       = Inr (fingerprint_features (spec_fingerprint example_snapshot))"
proof -
  have a: "is_snapshot example_snapshot" by code_simp
  have b: "is_snapshot (JObj (put_prop example_fields (ascii ''unlocked'') repainted_unlocked))"
    by code_simp
  have c: "spec_fingerprint example_snapshot
       = spec_fingerprint (JObj (put_prop example_fields (ascii ''unlocked'') repainted_unlocked))"
    by code_simp
  from derived_key_of_fingerprint [OF a b c] a b c show ?thesis by simp
qed

subsection \<open>The structural validator\<close>

text \<open>
  C5, as the code has it. \<open>validateGameLogic\<close> rejects a value that is not of type
  object or is \<open>null\<close>, with the reason of line 66. For an object it takes each of
  \<open>unlocked\<close>, \<open>history\<close> and \<open>missions\<close> as empty when the member is absent or
  falsy, and rejects, with the reason that names the member and in this order, an
  \<open>unlocked\<close> that is truthy and not of type object, a \<open>history\<close> that is truthy and
  not an array, a \<open>missions\<close> that is truthy and not an array. It accepts every other
  object, and every array.
\<close>

theorem validateGameLogic_cases:
  "validateGameLogic (JObj kvs) =
     (if truthy (field kvs (ascii ''unlocked''))
           \<and> typeof (field kvs (ascii ''unlocked'')) \<noteq> TObject
        then Invalid UnlockedFormatError
      else if truthy (field kvs (ascii ''history'')) \<and> \<not> isArray (field kvs (ascii ''history''))
        then Invalid HistoryFormatError
      else if truthy (field kvs (ascii ''missions'')) \<and> \<not> isArray (field kvs (ascii ''missions''))
        then Invalid MissionsFormatError
      else Valid)
   \<and> validateGameLogic (JArr xs) = Valid
   \<and> (typeof v \<noteq> TObject \<or> v = JNull \<longrightarrow> validateGameLogic v = Invalid SaveFormatError)"
  using validateGameLogic_object [of kvs] validateGameLogic_array [of xs]
    validateGameLogic_primitive [of v]
  by blast

text \<open>
  The theorem at an object whose \<open>history\<close> is a non-empty string, at the empty array
  and at a number.
\<close>

theorem validateGameLogic_cases_witness:
  "validateGameLogic (JObj [(ascii ''history'', JStr (ascii ''abc''))])
     = Invalid HistoryFormatError
   \<and> validateGameLogic (JArr []) = Valid
   \<and> typeof (JNum 5) \<noteq> TObject
   \<and> validateGameLogic (JNum 5) = Invalid SaveFormatError"
  using validateGameLogic_cases
    [of "[(ascii ''history'', JStr (ascii ''abc''))]" "[]" "JNum 5"]
  by (simp add: field_def ascii_def)

text \<open>
  The claim as stated fails: here \<open>history\<close> is present and is a plain string, not a
  sequence, and the validator accepts the object. The string is empty, hence falsy, and
  line 70 replaces it by an empty array before the test.
\<close>

theorem empty_history_counterexample:
  "field [(ascii ''history'', JStr [])] (ascii ''history'') = JStr []
   \<and> \<not> isArray (JStr [])
   \<and> validateGameLogic (JObj [(ascii ''history'', JStr [])]) = Valid"
  by (simp add: validateGameLogic_object field_def ascii_def)

subsection \<open>The presence gate\<close>

text \<open>
  C6. An input that is not \<open>undefined\<close> or \<open>null\<close>, an object in particular, and has
  no property \<open>_sf_integrity\<close> is rejected with the reason of line 134 (not a secure save
  format), hence not with the integrity reason of line 168.
\<close>

theorem import_without_signature:
  assumes "e \<noteq> JUndefined" and "e \<noteq> JNull"
    and "INTEGRITY_KEY \<notin> fst ` set (own_props e)"
  shows "secureImport now e = ImportFailure NotSecureFormat
         \<and> secureImport now e \<noteq> ImportFailure IntegrityFailed"
proof -
  have "get_prop e INTEGRITY_KEY = Inr JUndefined"
    using assms by (rule get_prop_absent) (rule key_names_not_length)
  then have "secureImport now e = ImportFailure NotSecureFormat"
    by (rule import_falsy_signature) simp
  then show ?thesis by simp
qed

text \<open>The theorem at a plain save without reserved members.\<close>

theorem import_without_signature_witness:
  "JObj [(ascii ''unlocked'', JObj [])] \<noteq> JUndefined
   \<and> JObj [(ascii ''unlocked'', JObj [])] \<noteq> JNull
   \<and> INTEGRITY_KEY \<notin> fst ` set (own_props (JObj [(ascii ''unlocked'', JObj [])]))
   \<and> secureImport 1762000000000 (JObj [(ascii ''unlocked'', JObj [])])
       = ImportFailure NotSecureFormat
   \<and> secureImport 1762000000000 (JObj [(ascii ''unlocked'', JObj [])])
       \<noteq> ImportFailure IntegrityFailed"
proof -
  have h: "INTEGRITY_KEY \<notin> fst ` set (own_props (JObj [(ascii ''unlocked'', JObj [])]))"
    by (simp add: INTEGRITY_KEY_def ascii_def)
  show ?thesis
    using h import_without_signature [of "JObj [(ascii ''unlocked'', JObj [])]" 1762000000000]
    by simp
qed

text \<open>
  C9. The gate tests the value of the property, not its presence: an envelope whose
  \<open>_sf_integrity\<close> is there but falsy (the empty string, \<open>0\<close>, \<open>false\<close>, \<open>null\<close>) is
  rejected with the reason of line 134 as well, not with the integrity reason.
\<close>

theorem import_falsy_signature_present:
  assumes "map_of kvs INTEGRITY_KEY = Some v" and "\<not> truthy v"
  shows "secureImport now (JObj kvs) = ImportFailure NotSecureFormat
         \<and> secureImport now (JObj kvs) \<noteq> ImportFailure IntegrityFailed"
proof -
  have "get_prop (JObj kvs) INTEGRITY_KEY = Inr v"
    using assms(1) by (simp add: field_def)
  then have "secureImport now (JObj kvs) = ImportFailure NotSecureFormat"
    using assms(2) by (rule import_falsy_signature)
  then show ?thesis by simp
qed

text \<open>The theorem at an envelope whose signature is the empty string.\<close>

theorem import_falsy_signature_present_witness:
  "map_of [(INTEGRITY_KEY, JStr []), (ascii ''unlocked'', JObj [])] INTEGRITY_KEY = Some (JStr [])
   \<and> \<not> truthy (JStr [])
   \<and> secureImport 1762000000000 (JObj [(INTEGRITY_KEY, JStr []), (ascii ''unlocked'', JObj [])])
       = ImportFailure NotSecureFormat
   \<and> secureImport 1762000000000 (JObj [(INTEGRITY_KEY, JStr []), (ascii ''unlocked'', JObj [])])
       \<noteq> ImportFailure IntegrityFailed"
  using import_falsy_signature_present
    [of "[(INTEGRITY_KEY, JStr []), (ascii ''unlocked'', JObj [])]" "JStr []" 1762000000000]
  by simp

subsection \<open>Results, not exceptions\<close>

text \<open>
  C7. Each of the two operations ends in exactly one result value. The body of
  \<open>secureExport\<close> either returns a success, which is the result, or throws, and then the
  result is the failure that carries the message of the exception; a failure carries the
  validator's reason, or the exception that the key derivation met while reading the
  snapshot, and hashing, encoding and signing do not fail. The body of \<open>secureImport\<close>
  either returns a result, success or failure, or throws, and then the result is the
  failure with the import-error reason of line 185 around the message.
\<close>

theorem results_not_exceptions:
  "((\<exists>d i. secureExport_try now s = Inr (ExportSuccess d i)
            \<and> secureExport now s = ExportSuccess d i)
     \<or> (\<exists>err. secureExport_try now s = Inl err \<and> secureExport now s = ExportFailure err
              \<and> ((\<exists>r. validateGameLogic s = Invalid r \<and> err = StructureError r)
                   \<or> (validateGameLogic s = Valid \<and> features s = Inl err))))
   \<and> ((\<exists>r. secureImport_try now e = Inr r \<and> secureImport now e = r)
     \<or> (\<exists>err. secureImport_try now e = Inl err
              \<and> secureImport now e = ImportFailure (ImportError err)))"
proof
  show "(\<exists>d i. secureExport_try now s = Inr (ExportSuccess d i)
            \<and> secureExport now s = ExportSuccess d i)
     \<or> (\<exists>err. secureExport_try now s = Inl err \<and> secureExport now s = ExportFailure err
              \<and> ((\<exists>r. validateGameLogic s = Invalid r \<and> err = StructureError r)
                   \<or> (validateGameLogic s = Valid \<and> features s = Inl err)))"
  proof (cases "validateGameLogic s")
    case (Invalid r)
    then show ?thesis by (simp add: secureExport_def export_invalid)
  next
    case Valid
    show ?thesis
    proof (cases "features s")
      case (Inl err)
      with Valid show ?thesis by (simp add: secureExport_def export_throw)
    next
      case (Inr f)
      then obtain k g where "generateDynamicKey s = Inr k" "generateSignature s k = Inr g"
        using sign_total by blast
      from export_ok [OF Valid this, of now] show ?thesis
        by (auto simp: secureExport_def)
    qed
  qed
  show "(\<exists>r. secureImport_try now e = Inr r \<and> secureImport now e = r)
     \<or> (\<exists>err. secureImport_try now e = Inl err
              \<and> secureImport now e = ImportFailure (ImportError err))"
    by (cases "secureImport_try now e") (simp_all add: secureImport_def)
qed

text \<open>
  The theorem where both bodies throw: a snapshot whose \<open>missions\<close> holds \<open>null\<close>, which
  the validator accepts and the key derivation cannot read, and the input \<open>null\<close>.
\<close>

theorem results_not_exceptions_witness:
  "secureExport_try 1762000000000 (JObj [(ascii ''missions'', JArr [JNull])]) = Inl ReadOfNullish
   \<and> secureExport 1762000000000 (JObj [(ascii ''missions'', JArr [JNull])])
       = ExportFailure ReadOfNullish
   \<and> secureImport_try 1762000000000 JNull = Inl ReadOfNullish
   \<and> secureImport 1762000000000 JNull = ImportFailure (ImportError ReadOfNullish)"
proof -
  have v: "validateGameLogic (JObj [(ascii ''missions'', JArr [JNull])]) = Valid"
    by code_simp
  have f: "features (JObj [(ascii ''missions'', JArr [JNull])]) = Inl ReadOfNullish"
    by code_simp
  have a: "secureExport_try 1762000000000 (JObj [(ascii ''missions'', JArr [JNull])])
             = Inl ReadOfNullish"
    using v f by (rule export_throw)
  have b: "secureImport_try 1762000000000 JNull = Inl ReadOfNullish"
    by (simp add: secureImport_try_def)
  from results_not_exceptions
    [of 1762000000000 "JObj [(ascii ''missions'', JArr [JNull])]" JNull]
  show ?thesis using a b by auto
qed

subsection \<open>Reserved names\<close>



subsection \<open>The input and the clock\<close>

text \<open>
  C8, as the code has it. \<open>secureImport\<close> does not change its input: run on a store,
  the importer leaves the input as it found it, every array it sorts being one it
  allocated itself, and it returns what the function \<open>secureImport\<close> returns. Its result
  is determined by the envelope and the reading of the clock. For an envelope with a
  truthy timestamp, the clock enters only through the verdict of the timestamp gate: two
  clock readings that give the same verdict give the same result.
\<close>

theorem import_frame_and_clock:
  "input (snd (secureImportS now st)) = input st
   \<and> fst (secureImportS now st) = secureImport now (input st)
   \<and> (get_prop (input st) TIMESTAMP_KEY = Inr ts \<longrightarrow> truthy ts
        \<longrightarrow> timestamp_abnormal now ts = timestamp_abnormal now' ts
        \<longrightarrow> secureImport now (input st) = secureImport now' (input st))"
proof -
  obtain zs where "secureImportS now st = (secureImport now (input st), ext st zs)"
    using secureImportS_run by blast
  then have "input (snd (secureImportS now st)) = input st"
    and "fst (secureImportS now st) = secureImport now (input st)"
    by simp_all
  then show ?thesis
    using import_clock by blast
qed

text \<open>
  The theorem at the envelope of the example, in a store without other arrays, for two
  clock readings five seconds apart.
\<close>

theorem import_frame_and_clock_witness:
  "get_prop example_envelope TIMESTAMP_KEY = Inr (JNum 1762000000000)
   \<and> truthy (JNum 1762000000000)
   \<and> timestamp_abnormal 1762000000000 (JNum 1762000000000)
       = timestamp_abnormal 1762000005000 (JNum 1762000000000)
   \<and> input (snd (secureImportS 1762000000000 \<lparr>input = example_envelope, fresh = []\<rparr>))
       = example_envelope
   \<and> fst (secureImportS 1762000000000 \<lparr>input = example_envelope, fresh = []\<rparr>)
       = secureImport 1762000000000 example_envelope
   \<and> secureImport 1762000000000 example_envelope = secureImport 1762000005000 example_envelope"
proof -
  have t: "truthy (JNum 1762000000000)" by simp
  have g: "timestamp_abnormal 1762000000000 (JNum 1762000000000)
       = timestamp_abnormal 1762000005000 (JNum 1762000000000)"
    by (simp add: timestamp_abnormal_num releaseTime_def dayInMs_def)
  from import_frame_and_clock
    [of 1762000000000 "\<lparr>input = example_envelope, fresh = []\<rparr>"
        "JNum 1762000000000" 1762000005000]
  show ?thesis using example_envelope_reserved(2) t g by simp
qed

text \<open>
  The claim as stated fails: the same envelope, that of the example, gives two different
  results at two readings of the clock. It is accepted at 1762000000000 and rejected at
  the timestamp gate at 1761827200000, two days earlier.
\<close>

theorem import_clock_counterexample:
  "secureImport 1762000000000 example_envelope \<noteq> secureImport 1761827200000 example_envelope"
proof -
  from example_envelope_reserved(1) obtain g where
    g: "length g = 44" "get_prop example_envelope INTEGRITY_KEY = Inr (JStr g)" by blast
  have "truthy (JStr g)" using g(1) by auto
  then have "secureImport 1761827200000 example_envelope = ImportFailure TimestampAbnormal"
    unfolding timestamp_gate_iff [OF g(2) example_envelope_reserved(2)]
    by (simp add: releaseTime_def dayInMs_def)
  then show ?thesis by (simp add: example_round_trip)
qed

end
